theory Spec2Isabelle
  imports Main "HOL-Library.Word" "HOL-Library.Multiset"
begin

section \<open>Timestamps\<close>

text \<open>
  \<^verbatim>\<open>bson.MongoTimestamp\<close> is Go's \<^verbatim>\<open>int64\<close>: a 64-bit word that every comparison
  of the sources reads as a signed number (\<^term>\<open>sint\<close>).
\<close>

type_synonym int64 = "64 word"
type_synonym MongoTimestamp = "64 word"

text \<open>
  Modelled from the spec: \<^verbatim>\<open>utils.ExtractMongoTimestamp\<close> is not among the sources.
  The data model of the spec puts the seconds since the epoch in the high 32 bits of a
  logical timestamp and a counter in the low 32 bits; the callers in the sources treat the
  result as seconds (\<^verbatim>\<open>FilterCheckpointGap\<close>, unit seconds, is subtracted from it, and
  the status endpoint prints it as Unix time). On Go's \<^verbatim>\<open>int64\<close> that is the
  arithmetic shift right by 32.
\<close>

definition ExtractMongoTimestamp :: "int64 \<Rightarrow> int64" where
  "ExtractMongoTimestamp ts = signed_drop_bit 32 ts"

text \<open>
  Modelled from the spec: \<^verbatim>\<open>utils.TimestampToInt64\<close> is not among the sources. It
  converts the type only: the sources apply \<^verbatim>\<open>ExtractMongoTimestamp\<close> to its result
  (\<^verbatim>\<open>fullBeginTs\<close> in \<^verbatim>\<open>Run\<close>, the LSN metric in \<^verbatim>\<open>RestAPI\<close>) to get seconds,
  so the result still is the whole 64-bit timestamp.
\<close>

definition TimestampToInt64 :: "MongoTimestamp \<Rightarrow> int64" where
  "TimestampToInt64 ts = ts"

section \<open>The replication coordinator (replication.go)\<close>

definition SYNCMODE_ALL :: string where
  "SYNCMODE_ALL = ''all''"

definition SYNCMODE_DOCUMENT :: string where
  "SYNCMODE_DOCUMENT = ''document''"

definition SYNCMODE_OPLOG :: string where
  "SYNCMODE_OPLOG = ''oplog''"

text \<open>\<^verbatim>\<open>utils.TimestampNode\<close>: the oldest and the newest journal timestamp of one source.\<close>

record TimestampNode =
  Oldest :: MongoTimestamp
  Newest :: MongoTimestamp

text \<open>
  \<^verbatim>\<open>utils.GetAllTimestamp\<close> is not among the sources, so what it returns is an input of
  the model: the map from replica set name to \<^verbatim>\<open>TimestampNode\<close> (an association list in
  the order the \<^verbatim>\<open>range\<close> loop visits it) and four aggregated timestamps, named here by
  their position in the result. \<^verbatim>\<open>selectSyncMode\<close> binds the third one to
  \<^verbatim>\<open>oldestTs\<close>; \<^verbatim>\<open>Run\<close> binds the second to \<^verbatim>\<open>fullFinishTs\<close> and the fourth to
  \<^verbatim>\<open>oldestTs\<close>.
\<close>

record AllTimestamp =
  ret_tsMap :: "(string \<times> TimestampNode) list"
  ret2 :: MongoTimestamp
  ret3 :: MongoTimestamp
  ret4 :: MongoTimestamp
  ret5 :: MongoTimestamp

text \<open>\<^verbatim>\<open>utils.NS\<close>: a namespace.\<close>

record NS =
  Database :: string
  Collection :: string

text \<open>
  Error values: \<open>External\<close> is an error a collaborator returned; the others are the
  errors the sources build, with the values their messages print.
\<close>

datatype error =
    External string
  | GetFullSyncFinishTsFailed error
  | IncrSyncTsLost int64 MongoTimestamp
  | UnknownSyncMode string
  | SyncNsFailed NS error
  | InsertDocsFailed nat NS error
  | DocumentSyncerSyncNsFailed NS NS error

text \<open>
  The loop of \<^verbatim>\<open>selectSyncMode\<close> over \<^verbatim>\<open>tsMap\<close>: \<^verbatim>\<open>needFull\<close> becomes true, and the
  loop breaks, at the first source whose oldest journal timestamp is at or after its stored
  checkpoint timestamp. The checkpoint store is external: \<open>ckptTs replName\<close> is what
  \<^verbatim>\<open>ckpt.NewCheckpointManager(replName, 0).Get().Timestamp\<close> reads. The code
  dereferences the result of \<^verbatim>\<open>Get()\<close> without a test, so a checkpoint is taken to be
  there for every source.
\<close>

fun needFull_loop :: "(string \<times> TimestampNode) list \<Rightarrow> (string \<Rightarrow> MongoTimestamp) \<Rightarrow> bool" where
  "needFull_loop [] ckptTs = False"
| "needFull_loop ((replName, ts) # rest) ckptTs =
     (if sint (ckptTs replName) \<le> sint (Oldest ts) then True else needFull_loop rest ckptTs)"

text \<open>
  \<^verbatim>\<open>selectSyncMode\<close> returns the mode, \<^verbatim>\<open>fullBeginTs\<close> and an error, which is
  \<^verbatim>\<open>nil\<close> on each of its four return statements.
\<close>

definition selectSyncMode ::
  "string \<Rightarrow> error + AllTimestamp \<Rightarrow> (string \<Rightarrow> MongoTimestamp) \<Rightarrow> string \<times> int64 \<times> error option" where
  "selectSyncMode syncMode getAllTimestamp ckptTs =
     (if syncMode \<noteq> SYNCMODE_ALL then (syncMode, 0, None)
      else case getAllTimestamp of
        Inl err \<Rightarrow> (syncMode, 0, None)
      | Inr a \<Rightarrow>
          if needFull_loop (ret_tsMap a) ckptTs
          then (SYNCMODE_ALL, TimestampToInt64 (ret3 a), None)
          else (SYNCMODE_OPLOG, 0, None))"

text \<open>
  What \<^verbatim>\<open>Run\<close> reads from its collaborators: the result of \<^verbatim>\<open>sanitizeMongoDB\<close>, the
  configuration, the two results of \<^verbatim>\<open>GetAllTimestamp\<close> (inside \<^verbatim>\<open>selectSyncMode\<close>
  and after the full sync), the stored checkpoints, and the results of the two phases.
\<close>

record Coordinator =
  sanitizeMongoDB_result :: "error option"
  conf_SyncMode :: string
  conf_ContextStartPosition :: int64
  GetAllTimestamp_select :: "error + AllTimestamp"
  ckptTimestamp :: "string \<Rightarrow> MongoTimestamp"
  startDocumentReplication_result :: "error option"
  GetAllTimestamp_finish :: "error + AllTimestamp"
  startOplogReplication_result :: "int64 \<Rightarrow> int64 \<Rightarrow> error option"

text \<open>The phases \<^verbatim>\<open>Run\<close> starts, in order, with the arguments it passes.\<close>

datatype call =
    StartDocumentReplication
  | StartOplogReplication int64 int64

definition Run_all :: "Coordinator \<Rightarrow> int64 \<Rightarrow> call list \<times> error option" where
  "Run_all c fullBeginTs =
     (case startDocumentReplication_result c of
        Some err \<Rightarrow> ([StartDocumentReplication], Some err)
      | None \<Rightarrow>
          (case GetAllTimestamp_finish c of
             Inl err \<Rightarrow> ([StartDocumentReplication], Some (GetFullSyncFinishTsFailed err))
           | Inr a \<Rightarrow>
               (let fullFinishTs = ret2 a; oldestTs = ret4 a in
                if sint fullBeginTs \<le> sint (ExtractMongoTimestamp oldestTs)
                then ([StartDocumentReplication], Some (IncrSyncTsLost fullBeginTs oldestTs))
                else ([StartDocumentReplication,
                       StartOplogReplication fullBeginTs (TimestampToInt64 fullFinishTs)],
                      startOplogReplication_result c fullBeginTs (TimestampToInt64 fullFinishTs)))))"

definition Run :: "Coordinator \<Rightarrow> call list \<times> error option" where
  "Run c =
     (case sanitizeMongoDB_result c of
        Some err \<Rightarrow> ([], Some err)
      | None \<Rightarrow>
          (case selectSyncMode (conf_SyncMode c) (GetAllTimestamp_select c) (ckptTimestamp c) of
             (syncMode, fullBeginTs, Some err) \<Rightarrow> ([], Some err)
           | (syncMode, fullBeginTs, None) \<Rightarrow>
               if syncMode = SYNCMODE_ALL then Run_all c fullBeginTs
               else if syncMode = SYNCMODE_DOCUMENT
                 then ([StartDocumentReplication], startDocumentReplication_result c)
               else if syncMode = SYNCMODE_OPLOG
                 then ([StartOplogReplication (conf_ContextStartPosition c) (conf_ContextStartPosition c)],
                       startOplogReplication_result c (conf_ContextStartPosition c)
                         (conf_ContextStartPosition c))
               else ([], Some (UnknownSyncMode (conf_SyncMode c)))))"

text \<open>
  The decision as the specification words it, for comparison with \<^const>\<open>selectSyncMode\<close>:
  over the sources' timestamps, mode \<^verbatim>\<open>all\<close> becomes \<^verbatim>\<open>oplog\<close> with
  \<^verbatim>\<open>fullBeginTs = 0\<close> when every stored checkpoint is strictly greater than the source's
  oldest journal timestamp, and stays \<^verbatim>\<open>all\<close> with the minimum of the oldest timestamps
  otherwise; every other mode is returned unchanged with 0.
\<close>

fun minOldest :: "(string \<times> TimestampNode) list \<Rightarrow> MongoTimestamp" where
  "minOldest [] = 0"
| "minOldest [(replName, ts)] = Oldest ts"
| "minOldest ((replName, ts) # rest) =
     (if sint (Oldest ts) \<le> sint (minOldest rest) then Oldest ts else minOldest rest)"

definition selectSyncMode_spec ::
  "string \<Rightarrow> (string \<times> TimestampNode) list \<Rightarrow> (string \<Rightarrow> MongoTimestamp) \<Rightarrow> string \<times> int64" where
  "selectSyncMode_spec syncMode sources ckptTs =
     (if syncMode \<noteq> SYNCMODE_ALL then (syncMode, 0)
      else if list_all (\<lambda>(replName, ts). sint (Oldest ts) < sint (ckptTs replName)) sources
        then (SYNCMODE_OPLOG, 0)
        else (SYNCMODE_ALL, minOldest sources))"

text \<open>Concrete inputs used by the examples below.\<close>

definition no_checkpoint :: "string \<Rightarrow> MongoTimestamp" where
  "no_checkpoint replName = 0"

definition seconds :: "int64 \<Rightarrow> MongoTimestamp" where
  "seconds n = push_bit 32 n"

definition src_rs0 :: "(string \<times> TimestampNode) list" where
  "src_rs0 = [(''rs0'', \<lparr>Oldest = seconds 100, Newest = seconds 500\<rparr>)]"

definition ts_at_start :: AllTimestamp where
  "ts_at_start = \<lparr>ret_tsMap = src_rs0, ret2 = seconds 500, ret3 = seconds 500,
     ret4 = seconds 100, ret5 = seconds 100\<rparr>"

definition ts_after_full :: AllTimestamp where
  "ts_after_full = \<lparr>ret_tsMap = [(''rs0'', \<lparr>Oldest = seconds 600, Newest = seconds 900\<rparr>)],
     ret2 = seconds 900, ret3 = seconds 900, ret4 = seconds 600, ret5 = seconds 600\<rparr>"

definition starts_fine :: "int64 \<Rightarrow> int64 \<Rightarrow> error option" where
  "starts_fine oplogStartPosition fullSyncFinishPosition = None"

definition coordinator_rotated :: Coordinator where
  "coordinator_rotated = \<lparr>sanitizeMongoDB_result = None, conf_SyncMode = SYNCMODE_ALL,
     conf_ContextStartPosition = 0, GetAllTimestamp_select = Inr ts_at_start,
     ckptTimestamp = no_checkpoint, startDocumentReplication_result = None,
     GetAllTimestamp_finish = Inr ts_after_full, startOplogReplication_result = starts_fine\<rparr>"

definition coordinator_unreachable :: Coordinator where
  "coordinator_unreachable = \<lparr>sanitizeMongoDB_result = None, conf_SyncMode = SYNCMODE_ALL,
     conf_ContextStartPosition = 0,
     GetAllTimestamp_select = Inl (External ''no reachable servers''),
     ckptTimestamp = no_checkpoint, startDocumentReplication_result = None,
     GetAllTimestamp_finish = Inr ts_after_full, startOplogReplication_result = starts_fine\<rparr>"

section \<open>The oplog syncer (collector, syncer of one source)\<close>

definition PipelineQueueMaxNr :: nat where
  "PipelineQueueMaxNr = 4"

definition PipelineQueueMinNr :: nat where
  "PipelineQueueMinNr = 1"

definition PipelineQueueLen :: nat where
  "PipelineQueueLen = 64"

definition DurationTime :: nat where
  "DurationTime = 6000"

definition DDLCheckpointInterval :: nat where
  "DDLCheckpointInterval = 300"

definition FilterCheckpointGap :: int64 where
  "FilterCheckpointGap = 180"

definition FilterCheckpointCheckInterval :: int where
  "FilterCheckpointCheckInterval = 180"

text \<open>\<^verbatim>\<open>bson.Raw\<close>, by its \<^verbatim>\<open>Data\<close> bytes.\<close>

type_synonym bsonRaw = "8 word list"

text \<open>
  \<^verbatim>\<open>oplog.PartialLog\<close> and \<^verbatim>\<open>oplog.GenericOplog\<close>. What \<^verbatim>\<open>bson.Unmarshal\<close> reads
  out of the bytes is a parameter \<open>unmarshal\<close> of the deserializer.
\<close>

record 'p PartialLog =
  document :: 'p
  RawSize :: int

record 'p GenericOplog =
  Raw :: bsonRaw
  Parsed :: "'p PartialLog"

text \<open>
  The calls a goroutine makes on its collaborators (reader, metrics, checkpoint manager,
  batcher, scheduler), recorded in order.
\<close>

datatype event =
    YieldInMs nat
  | DelayFor nat
  | Checkpoint bool MongoTimestamp
  | UpdateQueryTimestamp MongoTimestamp
  | SetQueryTimestampOnEmpty MongoTimestamp
  | StartFetcher
  | SetLSN int64
  | DispatchBatches
  | AddGet nat
  | SetOplogMax int
  | SetOplogAvg int

datatype panic =
    DivideByZero
  | MakeSliceCapOutOfRange
  | IndexOutOfRange
  | AssertFailed string
  | Crashf string
  | MakeChanSizeOutOfRange
  | NegativeWaitGroupCounter

text \<open>The options of \<^verbatim>\<open>conf.Options\<close> that the syncer reads.\<close>

record Options =
  FetcherBufferCapacity :: int
  WorkerNum :: int
  IsShardCluster :: bool

text \<open>
  The fields of \<^verbatim>\<open>OplogSyncer\<close> that the fetch path works on. A channel is the list of
  the batches waiting in it, oldest first: a send appends, a receive takes the head. The
  capacity \<^const>\<open>PipelineQueueLen\<close> makes a send wait for the receiver, it never drops or
  reorders a batch, so it does not show in the state after the send.
  \<open>FetchBad\<close> is the \<^verbatim>\<open>utils.FetchBad\<close> bit of \<^verbatim>\<open>replMetric.ReplStatus\<close>.
\<close>

record 'p OplogSyncer =
  buffer :: "bsonRaw list"
  pendingQueue :: "bsonRaw list list list"
  logsQueue :: "'p GenericOplog list list list"
  nextQueuePosition :: "64 word"
  FetchBad :: bool
  history :: "event list"

definition calculatePendingQueueConcurrency :: "Options \<Rightarrow> nat" where
  "calculatePendingQueueConcurrency conf =
     (if IsShardCluster conf then PipelineQueueMinNr else PipelineQueueMaxNr)"

text \<open>\<^verbatim>\<open>startDeserializer\<close> creates the empty channels; its goroutines are the steps below.\<close>

definition startDeserializer :: "Options \<Rightarrow> 'p OplogSyncer \<Rightarrow> 'p OplogSyncer" where
  "startDeserializer conf s =
     (let parallel = calculatePendingQueueConcurrency conf in
      s\<lparr>pendingQueue := replicate parallel [], logsQueue := replicate parallel []\<rparr>)"

text \<open>
  \<^verbatim>\<open>transfer\<close>. The remainder by \<^verbatim>\<open>uint64(len(sync.pendingQueue))\<close> panics when there is
  no queue, and \<^verbatim>\<open>make\<close> panics on a negative capacity.
\<close>

definition transfer ::
  "Options \<Rightarrow> bsonRaw option \<Rightarrow> 'p OplogSyncer \<Rightarrow> panic + (bool \<times> 'p OplogSyncer)" where
  "transfer conf log s =
     (let flush = (log = None);
          buf = (case log of Some l \<Rightarrow> buffer s @ [l] | None \<Rightarrow> buffer s)
      in if FetcherBufferCapacity conf \<le> int (length buf) \<or> (flush \<and> length buf \<noteq> 0)
         then
           if length (pendingQueue s) = 0 then Inl DivideByZero
           else
             (let selected = unat (nextQueuePosition s mod word_of_nat (length (pendingQueue s)))
              in if FetcherBufferCapacity conf < 0 then Inl MakeSliceCapOutOfRange
                 else Inr (True,
                   s\<lparr>buffer := [],
                     pendingQueue :=
                       (pendingQueue s)[selected := pendingQueue s ! selected @ [buf]],
                     nextQueuePosition := nextQueuePosition s + 1\<rparr>))
         else Inr (False, s\<lparr>buffer := buf\<rparr>))"

text \<open>What \<^verbatim>\<open>Reader.Next\<close> returns: an entry or nil, and an error or nil.\<close>

datatype readerError =
    CollectionCappedError
  | TimeoutError
  | OtherReaderError string

text \<open>\<^verbatim>\<open>OplogSyncer.next\<close>, given what \<^verbatim>\<open>sync.reader.Next()\<close> returned.\<close>

definition sync_next ::
  "Options \<Rightarrow> bsonRaw option \<times> readerError option \<Rightarrow> 'p OplogSyncer
     \<Rightarrow> panic + (bool \<times> 'p OplogSyncer)" where
  "sync_next conf r s =
     (case r of
        (Some l, err) \<Rightarrow>
          (let payload = int (length l) in
           transfer conf (Some l)
             (s\<lparr>FetchBad := False,
                history := history s @ [AddGet 1, SetOplogMax payload, SetOplogAvg payload]\<rparr>))
      | (None, err) \<Rightarrow>
          if err = Some CollectionCappedError then Inr (False, s)
          else if err \<noteq> None \<and> err \<noteq> Some TimeoutError
            then transfer conf None
              (s\<lparr>FetchBad := True, history := history s @ [YieldInMs DurationTime]\<rparr>)
            else transfer conf None s)"

text \<open>
  One turn of the loop of \<^verbatim>\<open>poll\<close> reads \<^verbatim>\<open>quorum.IsMaster()\<close>, the rate controller and,
  unless throttled, \<^verbatim>\<open>Reader.Next()\<close>. The readings of the successive turns are a script;
  \<open>Returned\<close> is the state when \<^verbatim>\<open>poll\<close> returns, \<open>Running\<close> the state of a loop
  that has used up the script and is still going.
\<close>

record tick =
  IsMaster :: bool
  throttled :: bool
  ReaderNext :: "bsonRaw option \<times> readerError option"

datatype 'a outcome =
    Returned 'a
  | Running 'a
  | Panicked panic

fun poll_loop :: "Options \<Rightarrow> tick list \<Rightarrow> 'p OplogSyncer \<Rightarrow> 'p OplogSyncer outcome" where
  "poll_loop conf [] s = Running s"
| "poll_loop conf (t # ticks) s =
     (if \<not> IsMaster t then Returned s
      else if throttled t then poll_loop conf ticks (s\<lparr>history := history s @ [DelayFor 100]\<rparr>)
      else case sync_next conf (ReaderNext t) s of
        Inl p \<Rightarrow> Panicked p
      | Inr (transferred, s') \<Rightarrow> poll_loop conf ticks s')"

text \<open>\<^verbatim>\<open>poll\<close>; \<open>checkpoint\<close> is what \<^verbatim>\<open>sync.ckptManager.Get()\<close> returns, nil or a timestamp.\<close>

definition poll ::
  "Options \<Rightarrow> MongoTimestamp option \<Rightarrow> tick list \<Rightarrow> 'p OplogSyncer \<Rightarrow> 'p OplogSyncer outcome" where
  "poll conf checkpoint ticks s =
     (case checkpoint of
        None \<Rightarrow> Returned s
      | Some ts \<Rightarrow>
          poll_loop conf ticks
            (s\<lparr>history := history s @ [SetQueryTimestampOnEmpty ts, StartFetcher]\<rparr>))"

text \<open>
  The endless loop of \<^verbatim>\<open>start\<close>, over the scripts of the successive calls of \<^verbatim>\<open>poll\<close>:
  it never returns, so the result is \<open>Running\<close> or a panic.
\<close>

fun start_loop ::
  "Options \<Rightarrow> (MongoTimestamp option \<times> tick list) list \<Rightarrow> 'p OplogSyncer \<Rightarrow> 'p OplogSyncer outcome" where
  "start_loop conf [] s = Running s"
| "start_loop conf ((checkpoint, ticks) # rounds) s =
     (case poll conf checkpoint ticks s of
        Returned s' \<Rightarrow> start_loop conf rounds (s'\<lparr>history := history s' @ [YieldInMs DurationTime]\<rparr>)
      | Running s' \<Rightarrow> Running s'
      | Panicked p \<Rightarrow> Panicked p)"

text \<open>
  One turn of the goroutine \<^verbatim>\<open>deserializer(index)\<close>. On an empty channel the receive
  waits: the turn changes nothing.
\<close>

definition deserializer ::
  "(bsonRaw \<Rightarrow> 'p) \<Rightarrow> nat \<Rightarrow> 'p OplogSyncer \<Rightarrow> panic + 'p OplogSyncer" where
  "deserializer unmarshal index s =
     (if length (pendingQueue s) \<le> index \<or> length (logsQueue s) \<le> index then Inl IndexOutOfRange
      else case pendingQueue s ! index of
        [] \<Rightarrow> Inr s
      | batchRawLogs # waiting \<Rightarrow>
          if length batchRawLogs = 0
          then Inl (AssertFailed ''pending queue batch logs has zero length'')
          else
            (let deserializeLogs =
               map (\<lambda>rawLog. \<lparr>Raw = rawLog,
                      Parsed = \<lparr>document = unmarshal rawLog, RawSize = int (length rawLog)\<rparr>\<rparr>)
                 batchRawLogs
             in Inr (s\<lparr>pendingQueue := (pendingQueue s)[index := waiting],
                      logsQueue := (logsQueue s)[index := logsQueue s ! index @ [deserializeLogs]]\<rparr>)))"

text \<open>
  The fetch path and the deserializers of one syncer, interleaved in any order: a run is a
  list of calls of \<^verbatim>\<open>transfer\<close> (as \<^verbatim>\<open>next\<close> makes them) and of deserializer turns.
\<close>

datatype action =
    Transfer "bsonRaw option"
  | Deserialize nat

fun run :: "Options \<Rightarrow> (bsonRaw \<Rightarrow> 'p) \<Rightarrow> action list \<Rightarrow> 'p OplogSyncer \<Rightarrow> panic + 'p OplogSyncer" where
  "run conf unmarshal [] s = Inr s"
| "run conf unmarshal (Transfer log # acts) s =
     (case transfer conf log s of
        Inl p \<Rightarrow> Inl p
      | Inr (pushed, s') \<Rightarrow> run conf unmarshal acts s')"
| "run conf unmarshal (Deserialize index # acts) s =
     (case deserializer unmarshal index s of
        Inl p \<Rightarrow> Inl p
      | Inr s' \<Rightarrow> run conf unmarshal acts s')"

text \<open>The buffer after the optional append at the head of \<^verbatim>\<open>transfer\<close>.\<close>

definition appended :: "bsonRaw list \<Rightarrow> bsonRaw option \<Rightarrow> bsonRaw list" where
  "appended buf log = (case log of Some l \<Rightarrow> buf @ [l] | None \<Rightarrow> buf)"

text \<open>
  The invariant of the two rows of channels: there are \<open>parallel\<close> channels of each
  kind and no batch waiting in any of them is empty.
\<close>

definition nonempty_batches :: "'a list list list \<Rightarrow> bool" where
  "nonempty_batches queues = list_all (list_all (\<lambda>batch. batch \<noteq> [])) queues"

definition pipeline_ok :: "nat \<Rightarrow> 'p OplogSyncer \<Rightarrow> bool" where
  "pipeline_ok parallel s \<longleftrightarrow>
     length (pendingQueue s) = parallel \<and> length (logsQueue s) = parallel \<and>
     nonempty_batches (pendingQueue s) \<and> nonempty_batches (logsQueue s)"

text \<open>\<^verbatim>\<open>startDeserializer\<close> starts a deserializer for each index below the number of channels.\<close>

fun deserializer_index_ok :: "nat \<Rightarrow> action \<Rightarrow> bool" where
  "deserializer_index_ok parallel (Transfer log) = True"
| "deserializer_index_ok parallel (Deserialize index) = (index < parallel)"

text \<open>Concrete inputs used by the examples below.\<close>

definition conf_small :: Options where
  "conf_small = \<lparr>FetcherBufferCapacity = 2, WorkerNum = 1, IsShardCluster = False\<rparr>"

definition syncer_fresh :: "nat OplogSyncer" where
  "syncer_fresh = \<lparr>buffer = [], pendingQueue = [[], [], [], []], logsQueue = [[], [], [], []],
     nextQueuePosition = 0, FetchBad = False, history = []\<rparr>"

definition syncer_half_full :: "nat OplogSyncer" where
  "syncer_half_full = \<lparr>buffer = [[1]], pendingQueue = [[], [], [], []],
     logsQueue = [[], [], [], []], nextQueuePosition = 5, FetchBad = False, history = []\<rparr>"

definition unmarshal_length :: "bsonRaw \<Rightarrow> nat" where
  "unmarshal_length rawLog = length rawLog"

definition tick_capped :: tick where
  "tick_capped = \<lparr>IsMaster = True, throttled = False,
     ReaderNext = (None, Some CollectionCappedError)\<rparr>"

definition tick_entry :: tick where
  "tick_entry = \<lparr>IsMaster = True, throttled = False, ReaderNext = (Some [7], None)\<rparr>"

definition tick_broken :: tick where
  "tick_broken = \<lparr>IsMaster = True, throttled = False,
     ReaderNext = (None, Some (OtherReaderError ''EOF''))\<rparr>"

definition tick_not_master :: tick where
  "tick_not_master = \<lparr>IsMaster = False, throttled = False, ReaderNext = (None, None)\<rparr>"

section \<open>The batcher goroutine of the syncer\<close>

text \<open>
  The checkpoint manager and \<^verbatim>\<open>sync.checkpoint\<close> are not among the sources. The batcher
  goroutine is the only caller of \<^verbatim>\<open>sync.checkpoint\<close>, so what
  \<^verbatim>\<open>sync.ckptManager.Get().Timestamp\<close> reads is taken as a function \<open>ckptGet\<close> of the
  calls the goroutine has made so far: any course of the worker acknowledgements is one
  such function. As in the code, which dereferences the result of \<^verbatim>\<open>Get()\<close> without a
  test, a checkpoint is taken to be there.

  The loop of \<^verbatim>\<open>checkCheckpointUpdate\<close> may spin for ever: \<open>None\<close> is the call that
  does not return.
\<close>

partial_function (option) barrier_wait ::
  "(event list \<Rightarrow> MongoTimestamp) \<Rightarrow> MongoTimestamp \<Rightarrow> event list \<Rightarrow> event list option" where
  "barrier_wait ckptGet newestTs calls =
     (if sint newestTs \<le> sint (ckptGet calls) then Some calls
      else barrier_wait ckptGet newestTs
             (calls @ [YieldInMs DDLCheckpointInterval, Checkpoint True 0]))"

definition checkCheckpointUpdate ::
  "Options \<Rightarrow> (event list \<Rightarrow> MongoTimestamp) \<Rightarrow> bool \<Rightarrow> MongoTimestamp \<Rightarrow> event list
     \<Rightarrow> event list option" where
  "checkCheckpointUpdate conf ckptGet barrier newestTs calls =
     (if barrier \<and> 0 < sint newestTs \<and> 1 < WorkerNum conf
      then barrier_wait ckptGet newestTs calls
      else Some calls)"

text \<open>
  The variables the closure of \<^verbatim>\<open>startBatcher\<close> keeps between its turns, with the calls
  made so far. Wall time is in nanoseconds.
\<close>

record BatcherLoop =
  filterFlag :: bool
  filterCheckTs :: int
  calls :: "event list"

text \<open>
  What one turn reads from the batcher and the clock: \<^verbatim>\<open>barrier\<close> and \<^verbatim>\<open>allEmpty\<close> of
  \<^verbatim>\<open>batchMore\<close>, the timestamps of the two entries of \<^verbatim>\<open>getLastOplog\<close> (\<open>None\<close> for
  nil), the result of \<^verbatim>\<open>dispatchBatches\<close> and \<^verbatim>\<open>time.Now()\<close>.
\<close>

record batch =
  barrier :: bool
  allEmpty :: bool
  lastOplog :: "MongoTimestamp option"
  lastFilterOplog :: "MongoTimestamp option"
  worked :: bool
  now :: int

definition Second :: int where
  "Second = 1000000000"

definition dispatch_branch ::
  "Options \<Rightarrow> (event list \<Rightarrow> MongoTimestamp) \<Rightarrow> batch \<Rightarrow> MongoTimestamp \<Rightarrow> BatcherLoop
     \<Rightarrow> (panic + BatcherLoop) option" where
  "dispatch_branch conf ckptGet b newestTs st =
     (let dispatched = calls st @ [DispatchBatches] @
            (if worked b
             then [SetLSN (TimestampToInt64 newestTs), UpdateQueryTimestamp newestTs] else []);
          flushed = dispatched @ [Checkpoint (barrier b) 0]
      in case checkCheckpointUpdate conf ckptGet (barrier b) newestTs flushed of
           None \<Rightarrow> None
         | Some waited \<Rightarrow> Some (Inr (st\<lparr>filterFlag := False, calls := waited\<rparr>)))"

definition filtered_branch ::
  "Options \<Rightarrow> (event list \<Rightarrow> MongoTimestamp) \<Rightarrow> batch \<Rightarrow> BatcherLoop
     \<Rightarrow> (panic + BatcherLoop) option" where
  "filtered_branch conf ckptGet b st =
     (case lastFilterOplog b of
        None \<Rightarrow> Some (Inr st)
      | Some filterTs \<Rightarrow>
          if \<not> filterFlag st then Some (Inr (st\<lparr>filterFlag := True, filterCheckTs := now b\<rparr>))
          else if \<not> (filterCheckTs st + FilterCheckpointCheckInterval * Second < now b)
            then Some (Inr st)
          else
            (let checkpointTs = ExtractMongoTimestamp (ckptGet (calls st));
                 filterNewestTs = ExtractMongoTimestamp filterTs
             in if sint checkpointTs < sint (filterNewestTs - FilterCheckpointGap)
                then
                  (let newestTs = filterTs in
                   case lastOplog b of
                     Some logTs \<Rightarrow>
                       if sint newestTs \<le> sint logTs
                       then Some (Inl (Crashf ''filter newestTs smaller than previous timestamp''))
                       else
                         (case checkCheckpointUpdate conf ckptGet True logTs (calls st) of
                            None \<Rightarrow> None
                          | Some waited \<Rightarrow>
                              Some (Inr (st\<lparr>filterFlag := False,
                                calls := waited @
                                  [UpdateQueryTimestamp newestTs, Checkpoint False newestTs]\<rparr>)))
                   | None \<Rightarrow>
                       Some (Inr (st\<lparr>filterFlag := False,
                         calls := calls st @
                           [UpdateQueryTimestamp newestTs, Checkpoint False newestTs]\<rparr>)))
                else Some (Inr st)))"

text \<open>One turn of the function \<^verbatim>\<open>startBatcher\<close> runs in a loop.\<close>

definition startBatcher_turn ::
  "Options \<Rightarrow> (event list \<Rightarrow> MongoTimestamp) \<Rightarrow> batch \<Rightarrow> BatcherLoop
     \<Rightarrow> (panic + BatcherLoop) option" where
  "startBatcher_turn conf ckptGet b st =
     (case lastOplog b of
        Some logTs \<Rightarrow>
          if \<not> allEmpty b then dispatch_branch conf ckptGet b logTs st
          else filtered_branch conf ckptGet b st
      | None \<Rightarrow> filtered_branch conf ckptGet b st)"

text \<open>The loop, over the readings of its successive turns.\<close>

fun startBatcher_loop ::
  "Options \<Rightarrow> (event list \<Rightarrow> MongoTimestamp) \<Rightarrow> batch list \<Rightarrow> BatcherLoop
     \<Rightarrow> (panic + BatcherLoop) option" where
  "startBatcher_loop conf ckptGet [] st = Some (Inr st)"
| "startBatcher_loop conf ckptGet (b # batches) st =
     (case startBatcher_turn conf ckptGet b st of
        None \<Rightarrow> None
      | Some (Inl p) \<Rightarrow> Some (Inl p)
      | Some (Inr st') \<Rightarrow> startBatcher_loop conf ckptGet batches st')"

text \<open>The calls of \<open>n\<close> rounds of the barrier wait: a sleep, then the re-flush.\<close>

fun reflush :: "nat \<Rightarrow> event list" where
  "reflush 0 = []"
| "reflush (Suc n) = [YieldInMs 300, Checkpoint True 0] @ reflush n"

text \<open>Concrete inputs used by the examples below.\<close>

definition conf_two_workers :: Options where
  "conf_two_workers = \<lparr>FetcherBufferCapacity = 2, WorkerNum = 2, IsShardCluster = False\<rparr>"

definition ckpt_stuck :: "event list \<Rightarrow> MongoTimestamp" where
  "ckpt_stuck made = 0"

definition ckpt_after_two_rounds :: "event list \<Rightarrow> MongoTimestamp" where
  "ckpt_after_two_rounds made = (if 4 \<le> length made then 10 else 0)"

definition ckpt_10000 :: "event list \<Rightarrow> MongoTimestamp" where
  "ckpt_10000 made = seconds 10000 + 1"

definition waiting_200s :: BatcherLoop where
  "waiting_200s = \<lparr>filterFlag = True, filterCheckTs = 0, calls = []\<rparr>"

definition quiet_after_accepted :: batch where
  "quiet_after_accepted = \<lparr>barrier = False, allEmpty = True,
     lastOplog = Some (seconds 10250), lastFilterOplog = Some (seconds 10200 + 5),
     worked = False, now = 200 * Second\<rparr>"

definition quiet_filtered_only :: batch where
  "quiet_filtered_only = \<lparr>barrier = False, allEmpty = True,
     lastOplog = None, lastFilterOplog = Some (seconds 10200 + 5),
     worked = False, now = 200 * Second\<rparr>"

text \<open>A turn that found nothing to dispatch: it takes the \<^verbatim>\<open>else\<close> branch of \<^verbatim>\<open>startBatcher\<close>.\<close>

definition filtered_only :: "batch \<Rightarrow> bool" where
  "filtered_only b \<longleftrightarrow> lastOplog b = None \<or> allEmpty b"

section \<open>The document syncer (docsyncer)\<close>

subsection \<open>Collection executor and document executors\<close>

text \<open>
  A \<^verbatim>\<open>CollectionExecutor\<close> with its \<^verbatim>\<open>DocExecutor\<close>s: the \<^verbatim>\<open>error\<close> field of each
  executor, the counter of the wait group, the batches waiting in the channel
  \<^verbatim>\<open>docBatch\<close> (oldest first), and the batches handed to \<^verbatim>\<open>Insert\<close> on the destination
  so far.
\<close>

record CollectionExecutor =
  ns :: NS
  executors :: "error option list"
  wg :: int
  docBatch :: "bsonRaw list list"
  inserts :: "bsonRaw list list"

text \<open>
  \<^verbatim>\<open>CollectionExecutor.Start\<close>, given the result of the connection attempt and
  \<^verbatim>\<open>ReplayerDocumentParallel\<close>; \<^verbatim>\<open>make\<close> panics on a negative size.
\<close>

definition CollectionExecutor_Start ::
  "error option \<Rightarrow> int \<Rightarrow> NS \<Rightarrow> panic + (error + CollectionExecutor)" where
  "CollectionExecutor_Start connect parallel toNS =
     (case connect of
        Some err \<Rightarrow> Inr (Inl err)
      | None \<Rightarrow>
          if parallel < 0 then Inl MakeChanSizeOutOfRange
          else Inr (Inr \<lparr>ns = toNS, executors = replicate (nat parallel) None, wg = 0,
                 docBatch = [], inserts = []\<rparr>))"

text \<open>
  \<^verbatim>\<open>CollectionExecutor.Sync\<close>. The channel has one slot for each executor; a send on a
  full channel waits for an executor to receive. Without any executor nobody ever
  receives, and the send blocks for ever: \<open>Running\<close>.
\<close>

definition CollectionExecutor_Sync ::
  "bsonRaw list \<Rightarrow> CollectionExecutor \<Rightarrow> CollectionExecutor outcome" where
  "CollectionExecutor_Sync docs c =
     (if length docs = 0 then Returned c
      else
        (let c' = c\<lparr>wg := wg c + 1\<rparr> in
         if executors c' = [] then Running c'
         else Returned (c'\<lparr>docBatch := docBatch c' @ [docs]\<rparr>)))"

text \<open>
  \<^verbatim>\<open>DocExecutor.doSync\<close>, given the result \<open>destInsert\<close> of the destination's \<^verbatim>\<open>Insert\<close>
  (it may depend on what was inserted before). It returns the error and the batches
  handed to \<^verbatim>\<open>Insert\<close>.
\<close>

definition doSync ::
  "(bsonRaw list list \<Rightarrow> bsonRaw list \<Rightarrow> error option) \<Rightarrow> bsonRaw list \<Rightarrow> CollectionExecutor
     \<Rightarrow> error option \<times> CollectionExecutor" where
  "doSync destInsert docs c =
     (if length docs = 0 then (None, c)
      else
        (case destInsert (inserts c) docs of
           Some err \<Rightarrow>
             (Some (InsertDocsFailed (length docs) (ns c) err), c\<lparr>inserts := inserts c @ [docs]\<rparr>)
         | None \<Rightarrow> (None, c\<lparr>inserts := inserts c @ [docs]\<rparr>)))"

text \<open>
  One turn of the loop of \<^verbatim>\<open>DocExecutor.start\<close> for the executor \<open>i\<close>: it receives the
  oldest batch (on an empty channel it waits: nothing changes), syncs it unless it has
  recorded an error, and calls \<^verbatim>\<open>wg.Done()\<close>, which panics on a negative counter.
\<close>

definition DocExecutor_turn ::
  "(bsonRaw list list \<Rightarrow> bsonRaw list \<Rightarrow> error option) \<Rightarrow> nat \<Rightarrow> CollectionExecutor
     \<Rightarrow> panic + CollectionExecutor" where
  "DocExecutor_turn destInsert i c =
     (if length (executors c) \<le> i then Inl IndexOutOfRange
      else case docBatch c of
        [] \<Rightarrow> Inr c
      | docs # waiting \<Rightarrow>
          (let c1 = c\<lparr>docBatch := waiting\<rparr>;
               c2 = (if executors c1 ! i = None
                     then (case doSync destInsert docs c1 of
                             (Some err, c') \<Rightarrow> c'\<lparr>executors := (executors c')[i := Some err]\<rparr>
                           | (None, c') \<Rightarrow> c')
                     else c1)
           in if wg c2 - 1 < 0 then Inl NegativeWaitGroupCounter
              else Inr (c2\<lparr>wg := wg c2 - 1\<rparr>)))"

text \<open>
  \<^verbatim>\<open>CollectionExecutor.Wait\<close>. \<^verbatim>\<open>wg.Wait()\<close> returns once the counter is 0; until then
  the executors take their turns, in the order \<open>schedule\<close> names them. \<open>Running\<close> is
  a wait that has outlasted the schedule. Then the first recorded error, in the order of
  the executors, is returned.
\<close>

fun wg_Wait ::
  "(bsonRaw list list \<Rightarrow> bsonRaw list \<Rightarrow> error option) \<Rightarrow> nat list \<Rightarrow> CollectionExecutor
     \<Rightarrow> CollectionExecutor outcome" where
  "wg_Wait destInsert [] c = (if wg c = 0 then Returned c else Running c)"
| "wg_Wait destInsert (i # schedule) c =
     (if wg c = 0 then Returned c
      else case DocExecutor_turn destInsert i c of
        Inl p \<Rightarrow> Panicked p
      | Inr c' \<Rightarrow> wg_Wait destInsert schedule c')"

fun first_error :: "NS \<Rightarrow> error option list \<Rightarrow> error option" where
  "first_error toNS [] = None"
| "first_error toNS (Some err # execs) = Some (SyncNsFailed toNS err)"
| "first_error toNS (None # execs) = first_error toNS execs"

definition CollectionExecutor_Wait ::
  "(bsonRaw list list \<Rightarrow> bsonRaw list \<Rightarrow> error option) \<Rightarrow> nat list \<Rightarrow> CollectionExecutor
     \<Rightarrow> (error option \<times> CollectionExecutor) outcome" where
  "CollectionExecutor_Wait destInsert schedule c =
     (case wg_Wait destInsert schedule c of
        Returned c' \<Rightarrow> Returned (first_error (ns c') (executors c'), c')
      | Running c' \<Rightarrow> Running (None, c')
      | Panicked p \<Rightarrow> Panicked p)"

text \<open>
  What happens to a collection executor before \<^verbatim>\<open>Wait\<close>: calls of \<^verbatim>\<open>Sync\<close> by
  \<^verbatim>\<open>collectionSync\<close>, interleaved with turns of the executors.
\<close>

datatype executor_action =
    SyncCall "bsonRaw list"
  | ExecutorTurn nat

fun executor_run ::
  "(bsonRaw list list \<Rightarrow> bsonRaw list \<Rightarrow> error option) \<Rightarrow> executor_action list
     \<Rightarrow> CollectionExecutor \<Rightarrow> CollectionExecutor outcome" where
  "executor_run destInsert [] c = Returned c"
| "executor_run destInsert (SyncCall docs # acts) c =
     (case CollectionExecutor_Sync docs c of
        Returned c' \<Rightarrow> executor_run destInsert acts c'
      | Running c' \<Rightarrow> Running c'
      | Panicked p \<Rightarrow> Panicked p)"
| "executor_run destInsert (ExecutorTurn i # acts) c =
     (case DocExecutor_turn destInsert i c of
        Inl p \<Rightarrow> Panicked p
      | Inr c' \<Rightarrow> executor_run destInsert acts c')"

subsection \<open>DB syncer\<close>

text \<open>
  The body of a collection executor goroutine of \<^verbatim>\<open>DBSyncer.Start\<close>, over the namespaces
  in the order their \<^verbatim>\<open>collectionSync\<close> calls finish: each failure overwrites
  \<^verbatim>\<open>syncError\<close>. The state is the list of namespaces done and \<^verbatim>\<open>syncError\<close>.
  \<open>collectionSync\<close> is the result of the call for a namespace, \<open>nsTrans\<close> the
  namespace transform.
\<close>

fun syncer_loop ::
  "(NS \<Rightarrow> NS) \<Rightarrow> (NS \<Rightarrow> error option) \<Rightarrow> NS list \<Rightarrow> NS list \<times> error option
     \<Rightarrow> NS list \<times> error option" where
  "syncer_loop nsTrans collectionSync [] st = st"
| "syncer_loop nsTrans collectionSync (n # namespaces) (finished, syncError) =
     syncer_loop nsTrans collectionSync namespaces
       (finished @ [n],
        case collectionSync n of
          Some err \<Rightarrow> Some (DocumentSyncerSyncNsFailed n (nsTrans n) err)
        | None \<Rightarrow> syncError)"

text \<open>
  \<^verbatim>\<open>DBSyncer.Start\<close>, given the result of \<^verbatim>\<open>getDbNamespace\<close> and
  \<^verbatim>\<open>ReplayerCollectionParallel\<close>. With one collection executor the namespaces finish in
  the order of \<^verbatim>\<open>nsList\<close>; with several the scheduler decides, and \<open>order\<close> is the
  order it produces. \<^verbatim>\<open>make\<close> panics on a negative size; without any executor
  \<^verbatim>\<open>wg.Wait()\<close> blocks for ever unless there is no namespace.
\<close>

definition DBSyncer_Start ::
  "int \<Rightarrow> (NS list \<Rightarrow> NS list) \<Rightarrow> (NS \<Rightarrow> NS) \<Rightarrow> (NS \<Rightarrow> error option) \<Rightarrow> error + NS list
     \<Rightarrow> (NS list \<times> error option) outcome" where
  "DBSyncer_Start collExecutorParallel order nsTrans collectionSync getDbNamespace =
     (case getDbNamespace of
        Inl err \<Rightarrow> Returned ([], Some err)
      | Inr nsList \<Rightarrow>
          if collExecutorParallel < 0 then Panicked MakeChanSizeOutOfRange
          else if collExecutorParallel = 0
            then (if length nsList = 0 then Returned ([], None) else Running ([], None))
          else Returned (syncer_loop nsTrans collectionSync (order nsList) ([], None)))"

text \<open>
  The error the specification names for \<^verbatim>\<open>DBSyncer.Start\<close>, for comparison: that of the
  first namespace that fails.
\<close>

fun first_failure :: "(NS \<Rightarrow> NS) \<Rightarrow> (NS \<Rightarrow> error option) \<Rightarrow> NS list \<Rightarrow> error option" where
  "first_failure nsTrans collectionSync [] = None"
| "first_failure nsTrans collectionSync (n # namespaces) =
     (case collectionSync n of
        Some err \<Rightarrow> Some (DocumentSyncerSyncNsFailed n (nsTrans n) err)
      | None \<Rightarrow> first_failure nsTrans collectionSync namespaces)"

text \<open>The error of the last namespace that fails.\<close>

fun last_failure :: "(NS \<Rightarrow> NS) \<Rightarrow> (NS \<Rightarrow> error option) \<Rightarrow> NS list \<Rightarrow> error option" where
  "last_failure nsTrans collectionSync [] = None"
| "last_failure nsTrans collectionSync (n # namespaces) =
     (case last_failure nsTrans collectionSync namespaces of
        Some later \<Rightarrow> Some later
      | None \<Rightarrow>
          (case collectionSync n of
             Some err \<Rightarrow> Some (DocumentSyncerSyncNsFailed n (nsTrans n) err)
           | None \<Rightarrow> None))"

text \<open>Concrete inputs used by the examples below.\<close>

definition ns_a :: NS where
  "ns_a = \<lparr>Database = ''db'', Collection = ''a''\<rparr>"

definition ns_b :: NS where
  "ns_b = \<lparr>Database = ''db'', Collection = ''b''\<rparr>"

definition same_order :: "NS list \<Rightarrow> NS list" where
  "same_order namespaces = namespaces"

definition same_ns :: "NS \<Rightarrow> NS" where
  "same_ns n = n"

definition all_fail :: "NS \<Rightarrow> error option" where
  "all_fail n = Some (External (Collection n))"

definition insert_rejects_big :: "bsonRaw list list \<Rightarrow> bsonRaw list \<Rightarrow> error option" where
  "insert_rejects_big before docs = (if 2 \<le> length docs then Some (External ''too big'') else None)"

definition two_executors :: CollectionExecutor where
  "two_executors = \<lparr>ns = ns_a, executors = [None, None], wg = 0, docBatch = [], inserts = []\<rparr>"

text \<open>
  The invariant of a collection executor: the wait counter counts the batches waiting in
  the channel, and nothing waits in a channel that has no executor.
\<close>

definition executor_inv :: "CollectionExecutor \<Rightarrow> bool" where
  "executor_inv c \<longleftrightarrow> wg c = int (length (docBatch c)) \<and> (executors c = [] \<longrightarrow> docBatch c = [])"

definition sync_then_fail :: "executor_action list" where
  "sync_then_fail = [SyncCall [[1], [2]], SyncCall [], SyncCall [[3]], ExecutorTurn 1, SyncCall [[4]]]"

section \<open>Properties of the coordinator\<close>

lemma needFull_loop_iff:
  "needFull_loop tsMap ckptTs \<longleftrightarrow>
     (\<exists>(replName, ts) \<in> set tsMap. sint (ckptTs replName) \<le> sint (Oldest ts))"
  by (induction tsMap ckptTs rule: needFull_loop.induct) auto

lemma selectSyncMode_other_mode:
  "syncMode \<noteq> SYNCMODE_ALL \<Longrightarrow> selectSyncMode syncMode r ckptTs = (syncMode, 0, None)"
  by (simp add: selectSyncMode_def)

lemma selectSyncMode_fetch_failed:
  "selectSyncMode SYNCMODE_ALL (Inl err) ckptTs = (SYNCMODE_ALL, 0, None)"
  by (simp add: selectSyncMode_def)

text \<open>
  C1, as amended. A configured mode other than \<^verbatim>\<open>all\<close> is returned unchanged with
  \<^verbatim>\<open>fullBeginTs = 0\<close>. With mode \<^verbatim>\<open>all\<close>: when \<^verbatim>\<open>GetAllTimestamp\<close> fails the result
  is \<^verbatim>\<open>all\<close> with \<^verbatim>\<open>fullBeginTs = 0\<close>; when it succeeds the result is \<^verbatim>\<open>oplog\<close> with
  \<^verbatim>\<open>fullBeginTs = 0\<close> if and only if every source's stored checkpoint timestamp is
  strictly greater than that source's oldest journal timestamp, and otherwise \<^verbatim>\<open>all\<close>
  with \<^verbatim>\<open>fullBeginTs\<close> the timestamp \<^verbatim>\<open>GetAllTimestamp\<close> returned in its third position
  (the one \<^verbatim>\<open>selectSyncMode\<close> names \<^verbatim>\<open>oldestTs\<close>). The error returned is always nil, and
  the order in which the map is visited does not matter.
\<close>

theorem selectSyncMode_decision:
  "selectSyncMode syncMode r ckptTs =
     (if syncMode \<noteq> SYNCMODE_ALL then (syncMode, 0, None)
      else case r of
        Inl err \<Rightarrow> (SYNCMODE_ALL, 0, None)
      | Inr a \<Rightarrow>
          if (\<forall>(replName, ts) \<in> set (ret_tsMap a). sint (Oldest ts) < sint (ckptTs replName))
          then (SYNCMODE_OPLOG, 0, None)
          else (SYNCMODE_ALL, TimestampToInt64 (ret3 a), None))"
proof (cases r)
  case (Inl err)
  then show ?thesis by (simp add: selectSyncMode_def)
next
  case (Inr a)
  have "needFull_loop (ret_tsMap a) ckptTs \<longleftrightarrow>
      \<not> (\<forall>(replName, ts) \<in> set (ret_tsMap a). sint (Oldest ts) < sint (ckptTs replName))"
    unfolding needFull_loop_iff by (fastforce simp: not_less)
  with Inr show ?thesis by (simp add: selectSyncMode_def)
qed

theorem selectSyncMode_decision_witness:
  "selectSyncMode SYNCMODE_ALL (Inr ts_at_start) no_checkpoint = (SYNCMODE_ALL, seconds 500, None)"
  using selectSyncMode_decision [of SYNCMODE_ALL "Inr ts_at_start" no_checkpoint]
  by (simp add: ts_at_start_def src_rs0_def no_checkpoint_def seconds_def TimestampToInt64_def)

text \<open>
  C1 as stated fails when \<^verbatim>\<open>GetAllTimestamp\<close> returns an error: source \<^verbatim>\<open>rs0\<close> has
  oldest timestamp 100 s and no checkpoint, so the stated rule gives \<^verbatim>\<open>all\<close> with
  \<^verbatim>\<open>fullBeginTs\<close> = 100 s, and the code returns \<^verbatim>\<open>all\<close> with \<^verbatim>\<open>fullBeginTs = 0\<close>.
\<close>

theorem selectSyncMode_spec_counterexample:
  "selectSyncMode SYNCMODE_ALL (Inl (External ''no reachable servers'')) no_checkpoint
     = (SYNCMODE_ALL, 0, None) \<and>
   selectSyncMode_spec SYNCMODE_ALL src_rs0 no_checkpoint = (SYNCMODE_ALL, seconds 100) \<and>
   seconds 100 \<noteq> (0 :: int64)"
  by (simp add: selectSyncMode_def selectSyncMode_spec_def src_rs0_def no_checkpoint_def
      seconds_def SYNCMODE_ALL_def)

lemma Run_all_starts_with_document_replication:
  "\<exists>rest. fst (Run_all c fullBeginTs) = StartDocumentReplication # rest"
  by (simp add: Run_all_def Let_def split: option.split sum.split)

text \<open>
  C9. When \<^verbatim>\<open>GetAllTimestamp\<close> fails inside \<^verbatim>\<open>selectSyncMode\<close> and the configured
  mode is \<^verbatim>\<open>all\<close>, the error is dropped: \<^verbatim>\<open>selectSyncMode\<close> returns mode \<^verbatim>\<open>all\<close>,
  \<^verbatim>\<open>fullBeginTs = 0\<close> and a nil error, and \<^verbatim>\<open>Run\<close> goes on into the \<^verbatim>\<open>all\<close> branch
  with \<^verbatim>\<open>fullBeginTs = 0\<close>, whose first step is the document replication.
\<close>

theorem selectSyncMode_discards_fetch_error:
  assumes "sanitizeMongoDB_result c = None"
    and "conf_SyncMode c = SYNCMODE_ALL"
    and "GetAllTimestamp_select c = Inl err"
  shows "selectSyncMode (conf_SyncMode c) (GetAllTimestamp_select c) (ckptTimestamp c)
           = (SYNCMODE_ALL, 0, None)
         \<and> Run c = Run_all c 0
         \<and> (\<exists>rest. fst (Run c) = StartDocumentReplication # rest)"
proof -
  have sel: "selectSyncMode (conf_SyncMode c) (GetAllTimestamp_select c) (ckptTimestamp c)
      = (SYNCMODE_ALL, 0, None)"
    using assms(2,3) by (simp add: selectSyncMode_fetch_failed)
  have run: "Run c = Run_all c 0"
    using assms(1) sel by (simp add: Run_def)
  from sel run Run_all_starts_with_document_replication [of c 0] show ?thesis
    by simp
qed

theorem selectSyncMode_discards_fetch_error_witness:
  "selectSyncMode SYNCMODE_ALL (Inl (External ''no reachable servers'')) no_checkpoint
     = (SYNCMODE_ALL, 0, None) \<and>
   Run coordinator_unreachable = Run_all coordinator_unreachable 0"
  using selectSyncMode_discards_fetch_error
    [of coordinator_unreachable "External ''no reachable servers''"]
  by (simp add: coordinator_unreachable_def)

text \<open>
  C3. The claim holds of the intent the code documents (\<^verbatim>\<open>the oldest oplog is lost\<close>;
  the log line before the test extracts the seconds of both \<^verbatim>\<open>oldestTs\<close> and
  \<^verbatim>\<open>fullBeginTs\<close>), and the test itself compares the seconds of \<^verbatim>\<open>oldestTs\<close> with the
  whole 64-bit \<^verbatim>\<open>fullBeginTs\<close>. Here the full sync began at 500 s, the oldest journal
  entry has moved to 600 s when it ends, and \<^verbatim>\<open>Run\<close> starts the oplog replication at
  500 s and returns no error.
\<close>

theorem Run_handoff_compares_seconds_with_timestamp:
  "Run coordinator_rotated
     = ([StartDocumentReplication, StartOplogReplication (seconds 500) (seconds 900)], None) \<and>
   sint (seconds 500) < sint (seconds 600)"
  by (simp add: Run_def Run_all_def selectSyncMode_def coordinator_rotated_def ts_at_start_def
      ts_after_full_def src_rs0_def no_checkpoint_def starts_fine_def seconds_def
      TimestampToInt64_def ExtractMongoTimestamp_def SYNCMODE_ALL_def)

section \<open>Properties of the fetch path\<close>

lemma selected_mod:
  fixes w :: "64 word"
  assumes "0 < P" "P < 2 ^ 64"
  shows "unat (w mod word_of_nat P) = unat w mod P"
  using assms by (simp add: unat_mod unat_of_nat)

text \<open>
  C6. With at least one pending queue (fewer than \<open>2 ^ 64\<close> of them) and a capacity that
  is not negative, every call of \<^verbatim>\<open>transfer\<close> returns; a non-nil entry is appended
  to the buffer; the buffer is pushed exactly when its length has reached
  \<^verbatim>\<open>FetcherBufferCapacity\<close>, or the call carried no entry and the buffer is not empty; a
  push appends the buffer to the queue of partition \<^verbatim>\<open>nextQueuePosition mod P\<close>, adds one
  to \<^verbatim>\<open>nextQueuePosition\<close> (in \<^verbatim>\<open>uint64\<close>) and leaves the buffer empty; without a push
  \<^verbatim>\<open>nextQueuePosition\<close> and the queues are unchanged. Nothing else changes.
\<close>

theorem transfer_push_rule:
  fixes s :: "'p OplogSyncer"
  assumes "pendingQueue s \<noteq> []" and "length (pendingQueue s) < 2 ^ 64"
    and "0 \<le> FetcherBufferCapacity conf"
  shows "\<exists>pushed s'. transfer conf log s = Inr (pushed, s') \<and>
     (pushed \<longleftrightarrow> FetcherBufferCapacity conf \<le> int (length (appended (buffer s) log))
                  \<or> (log = None \<and> buffer s \<noteq> [])) \<and>
     (if pushed
      then buffer s' = [] \<and> nextQueuePosition s' = nextQueuePosition s + 1 \<and>
           pendingQueue s' = (pendingQueue s)
             [unat (nextQueuePosition s) mod length (pendingQueue s) :=
                pendingQueue s ! (unat (nextQueuePosition s) mod length (pendingQueue s))
                  @ [appended (buffer s) log]]
      else buffer s' = appended (buffer s) log \<and> nextQueuePosition s' = nextQueuePosition s \<and>
           pendingQueue s' = pendingQueue s) \<and>
     logsQueue s' = logsQueue s \<and> FetchBad s' = FetchBad s \<and> history s' = history s"
proof -
  have sel: "unat (nextQueuePosition s mod word_of_nat (length (pendingQueue s)))
      = unat (nextQueuePosition s) mod length (pendingQueue s)"
    using assms(1,2) by (intro selected_mod) simp_all
  show ?thesis
    using assms(1,3) unfolding transfer_def Let_def sel appended_def
    by (cases log) auto
qed

theorem transfer_push_rule_witness:
  "transfer conf_small (Some [2]) syncer_half_full
     = Inr (True, syncer_half_full\<lparr>buffer := [], pendingQueue := [[], [[[1], [2]]], [], []],
         nextQueuePosition := 6\<rparr>)"
  using transfer_push_rule [of syncer_half_full conf_small "Some [2]"]
  by (simp add: transfer_def conf_small_def syncer_half_full_def)

lemma nonempty_batches_update:
  assumes "nonempty_batches queues" and "list_all (\<lambda>batch. batch \<noteq> []) q"
  shows "nonempty_batches (queues[i := q])"
proof -
  have "set (queues[i := q]) \<subseteq> insert q (set queues)"
    by (rule set_update_subset_insert)
  with assms show ?thesis
    unfolding nonempty_batches_def list_all_iff by blast
qed

lemma nonempty_batches_nth:
  "nonempty_batches queues \<Longrightarrow> i < length queues \<Longrightarrow> list_all (\<lambda>batch. batch \<noteq> []) (queues ! i)"
  by (simp add: nonempty_batches_def list_all_length)

lemma transfer_keeps_pipeline:
  fixes s :: "'p OplogSyncer"
  assumes cap: "1 \<le> FetcherBufferCapacity conf" and par: "0 < parallel"
    and ok: "pipeline_ok parallel s"
  shows "\<exists>pushed s'. transfer conf log s = Inr (pushed, s') \<and> pipeline_ok parallel s'"
proof -
  let ?buf = "case log of Some l \<Rightarrow> buffer s @ [l] | None \<Rightarrow> buffer s"
  let ?sel = "unat (nextQueuePosition s mod word_of_nat (length (pendingQueue s)))"
  show ?thesis
  proof (cases "FetcherBufferCapacity conf \<le> int (length ?buf) \<or> (log = None \<and> length ?buf \<noteq> 0)")
    case True
    then have ne: "?buf \<noteq> []" using cap by auto
    have upd: "nonempty_batches ((pendingQueue s)[?sel := pendingQueue s ! ?sel @ [?buf]])"
    proof (cases "?sel < length (pendingQueue s)")
      case True
      with ok have "list_all (\<lambda>batch. batch \<noteq> []) (pendingQueue s ! ?sel)"
        by (simp add: pipeline_ok_def nonempty_batches_nth)
      with ne have "list_all (\<lambda>batch. batch \<noteq> []) (pendingQueue s ! ?sel @ [?buf])"
        by simp
      with ok show ?thesis
        by (simp add: pipeline_ok_def nonempty_batches_update)
    next
      case False
      with ok show ?thesis by (simp add: pipeline_ok_def list_update_beyond not_less)
    qed
    from True cap par ok
    have "transfer conf log s = Inr (True,
        s\<lparr>buffer := [],
          pendingQueue := (pendingQueue s)[?sel := pendingQueue s ! ?sel @ [?buf]],
          nextQueuePosition := nextQueuePosition s + 1\<rparr>)"
      by (simp add: transfer_def Let_def pipeline_ok_def)
    moreover from ok upd
    have "pipeline_ok parallel (s\<lparr>buffer := [],
          pendingQueue := (pendingQueue s)[?sel := pendingQueue s ! ?sel @ [?buf]],
          nextQueuePosition := nextQueuePosition s + 1\<rparr>)"
      by (simp add: pipeline_ok_def)
    ultimately show ?thesis by blast
  next
    case False
    then have "transfer conf log s = Inr (False, s\<lparr>buffer := ?buf\<rparr>)"
      by (simp add: transfer_def Let_def)
    moreover from ok have "pipeline_ok parallel (s\<lparr>buffer := ?buf\<rparr>)"
      by (simp add: pipeline_ok_def)
    ultimately show ?thesis by blast
  qed
qed

lemma deserializer_keeps_pipeline:
  fixes s :: "'p OplogSyncer"
  assumes idx: "index < parallel" and ok: "pipeline_ok parallel s"
  shows "\<exists>s'. deserializer unmarshal index s = Inr s' \<and> pipeline_ok parallel s'"
proof (cases "pendingQueue s ! index")
  case Nil
  with idx ok show ?thesis
    by (simp add: deserializer_def pipeline_ok_def)
next
  case (Cons batchRawLogs waiting)
  from ok idx have all: "list_all (\<lambda>batch. batch \<noteq> []) (pendingQueue s ! index)"
    by (simp add: pipeline_ok_def nonempty_batches_nth)
  with Cons have ne: "batchRawLogs \<noteq> []" and rest: "list_all (\<lambda>batch. batch \<noteq> []) waiting"
    by simp_all
  from ok idx have lq: "list_all (\<lambda>batch. batch \<noteq> []) (logsQueue s ! index)"
    by (simp add: pipeline_ok_def nonempty_batches_nth)
  have p: "nonempty_batches ((pendingQueue s)[index := waiting])"
    using ok rest by (simp add: pipeline_ok_def nonempty_batches_update)
  have l: "nonempty_batches ((logsQueue s)[index := logsQueue s ! index @
      [map (\<lambda>rawLog. \<lparr>Raw = rawLog,
          Parsed = \<lparr>document = unmarshal rawLog, RawSize = int (length rawLog)\<rparr>\<rparr>) batchRawLogs]])"
    using ok lq ne by (intro nonempty_batches_update) (simp_all add: pipeline_ok_def)
  from Cons idx ok ne p l show ?thesis
    by (simp add: deserializer_def Let_def pipeline_ok_def)
qed

lemma startDeserializer_pipeline:
  "pipeline_ok (calculatePendingQueueConcurrency conf) (startDeserializer conf s)"
  by (simp add: startDeserializer_def Let_def pipeline_ok_def nonempty_batches_def list_all_iff)

lemma calculatePendingQueueConcurrency_pos: "0 < calculatePendingQueueConcurrency conf"
  by (simp add: calculatePendingQueueConcurrency_def PipelineQueueMinNr_def PipelineQueueMaxNr_def)

lemma run_keeps_pipeline:
  fixes s :: "'p OplogSyncer"
  assumes "1 \<le> FetcherBufferCapacity conf" and "0 < parallel"
    and "list_all (deserializer_index_ok parallel) acts"
    and "pipeline_ok parallel s"
  shows "\<exists>s'. run conf unmarshal acts s = Inr s' \<and> pipeline_ok parallel s'"
  using assms(3,4)
proof (induction acts arbitrary: s)
  case Nil
  then show ?case by simp
next
  case (Cons a acts)
  show ?case
  proof (cases a)
    case (Transfer log)
    from transfer_keeps_pipeline [OF assms(1,2) Cons.prems(2), of log]
    obtain pushed s' where "transfer conf log s = Inr (pushed, s')" "pipeline_ok parallel s'"
      by blast
    with Cons.IH [of s'] Cons.prems(1) Transfer show ?thesis by simp
  next
    case (Deserialize index)
    with Cons.prems(1) have "index < parallel" by simp
    from deserializer_keeps_pipeline [OF this Cons.prems(2), of unmarshal]
    obtain s' where "deserializer unmarshal index s = Inr s'" "pipeline_ok parallel s'"
      by blast
    with Cons.IH [of s'] Cons.prems(1) Deserialize show ?thesis by simp
  qed
qed

text \<open>
  C8. With \<^verbatim>\<open>FetcherBufferCapacity >= 1\<close>, in every run of the fetch path and the
  deserializers from the channels \<^verbatim>\<open>startDeserializer\<close> creates, no step panics (so the
  assertion of the deserializer on the length of a dequeued batch never fails), and at
  the end no batch in a pending queue and no batch in a logs queue is empty.
\<close>

theorem no_empty_batch_enqueued:
  fixes s0 :: "'p OplogSyncer"
  assumes "1 \<le> FetcherBufferCapacity conf"
    and "list_all (deserializer_index_ok (calculatePendingQueueConcurrency conf)) acts"
  shows "\<exists>s'. run conf unmarshal acts (startDeserializer conf s0) = Inr s' \<and>
           nonempty_batches (pendingQueue s') \<and> nonempty_batches (logsQueue s')"
  using run_keeps_pipeline [OF assms(1) calculatePendingQueueConcurrency_pos assms(2)
      startDeserializer_pipeline, of unmarshal s0]
  by (auto simp: pipeline_ok_def)

theorem no_empty_batch_enqueued_witness:
  "run conf_small unmarshal_length
     [Transfer (Some [1]), Transfer (Some [2, 3]), Deserialize 0, Transfer None]
     (startDeserializer conf_small syncer_fresh)
   = Inr (syncer_fresh\<lparr>logsQueue :=
       [[[\<lparr>Raw = [1], Parsed = \<lparr>document = 1, RawSize = 1\<rparr>\<rparr>,
          \<lparr>Raw = [2, 3], Parsed = \<lparr>document = 2, RawSize = 2\<rparr>\<rparr>]], [], [], []],
       nextQueuePosition := 1\<rparr>)"
  using no_empty_batch_enqueued [of conf_small
      "[Transfer (Some [1]), Transfer (Some [2, 3]), Deserialize 0, Transfer None]"
      unmarshal_length syncer_fresh]
  by (simp add: transfer_def deserializer_def startDeserializer_def conf_small_def
      syncer_fresh_def unmarshal_length_def calculatePendingQueueConcurrency_def
      PipelineQueueMaxNr_def eval_nat_numeral)

lemma poll_loop_returns_when_not_master:
  "poll_loop conf ticks s = Returned s' \<Longrightarrow> \<exists>t \<in> set ticks. \<not> IsMaster t"
proof (induction ticks arbitrary: s)
  case Nil
  then show ?case by simp
next
  case (Cons t ticks)
  then show ?case
    by (auto split: if_splits sum.splits prod.splits)
qed

lemma start_loop_never_returns: "start_loop conf rounds s \<noteq> Returned s'"
  by (induction rounds arbitrary: s) (auto split: outcome.splits)

text \<open>
  C5, as amended. When \<^verbatim>\<open>Reader.Next\<close> yields no entry and the \<^verbatim>\<open>CollectionCapped\<close>
  error, \<^verbatim>\<open>next\<close> returns false and changes nothing; \<^verbatim>\<open>poll\<close> ignores what \<^verbatim>\<open>next\<close>
  returns and goes on with the next turn of its loop. On any other non-timeout error
  \<^verbatim>\<open>next\<close> marks the fetch status bad, yields \<^verbatim>\<open>DurationTime\<close> = 6000 ms, then flushes
  the buffer through \<^verbatim>\<open>transfer(nil)\<close> and returns; \<^verbatim>\<open>poll\<close> again goes on with its
  loop. \<^verbatim>\<open>poll\<close> returns to \<^verbatim>\<open>start\<close> only at a turn where the node is not the master.
\<close>

theorem reader_errors_do_not_end_poll:
  fixes s :: "'p OplogSyncer"
  assumes "IsMaster t" and "\<not> throttled t"
    and "err \<noteq> CollectionCappedError" and "err \<noteq> TimeoutError"
  shows "sync_next conf (None, Some CollectionCappedError) s = Inr (False, s)
    \<and> (ReaderNext t = (None, Some CollectionCappedError)
         \<longrightarrow> poll_loop conf (t # ticks) s = poll_loop conf ticks s)
    \<and> sync_next conf (None, Some err) s
         = transfer conf None
             (s\<lparr>FetchBad := True, history := history s @ [YieldInMs 6000]\<rparr>)
    \<and> (ReaderNext t = (None, Some err)
         \<longrightarrow> poll_loop conf (t # ticks) s
             = (case transfer conf None
                       (s\<lparr>FetchBad := True, history := history s @ [YieldInMs 6000]\<rparr>) of
                  Inl p \<Rightarrow> Panicked p
                | Inr (pushed, s') \<Rightarrow> poll_loop conf ticks s'))
    \<and> (\<forall>s'. poll_loop conf (t # ticks) s = Returned s' \<longrightarrow> (\<exists>u \<in> set ticks. \<not> IsMaster u))"
proof -
  have ret: "\<forall>s'. poll_loop conf (t # ticks) s = Returned s' \<longrightarrow> (\<exists>u \<in> set ticks. \<not> IsMaster u)"
    using poll_loop_returns_when_not_master [of conf "t # ticks" s] assms(1) by auto
  from assms ret show ?thesis
    by (simp add: sync_next_def DurationTime_def)
qed

theorem reader_errors_do_not_end_poll_witness:
  "poll_loop conf_small [tick_broken, tick_not_master] syncer_half_full
     = Returned (syncer_half_full\<lparr>buffer := [], pendingQueue := [[], [[[1]]], [], []],
         nextQueuePosition := 6, FetchBad := True, history := [YieldInMs 6000]\<rparr>)"
  using reader_errors_do_not_end_poll [of tick_broken "OtherReaderError ''EOF''" conf_small
      syncer_half_full "[tick_not_master]"]
  by (simp add: tick_broken_def tick_not_master_def transfer_def conf_small_def
      syncer_half_full_def)

text \<open>
  C5 as stated fails: after a turn in which \<^verbatim>\<open>Reader.Next\<close> yields \<^verbatim>\<open>CollectionCapped\<close>
  the same call of \<^verbatim>\<open>poll\<close> calls \<^verbatim>\<open>next\<close> again and buffers the entry it gets.
\<close>

theorem poll_goes_on_after_capped_counterexample:
  "poll conf_small (Some 0) [tick_capped, tick_entry, tick_not_master] syncer_fresh
     = Returned (syncer_fresh\<lparr>buffer := [[7]],
         history := [SetQueryTimestampOnEmpty 0, StartFetcher,
                     AddGet 1, SetOplogMax 1, SetOplogAvg 1]\<rparr>)"
  by (simp add: poll_def sync_next_def transfer_def tick_capped_def tick_entry_def
      tick_not_master_def conf_small_def syncer_fresh_def)

section \<open>Properties of the batcher goroutine\<close>

lemma barrier_wait_sound:
  assumes "barrier_wait ckptGet newestTs made = Some made'"
  shows "\<exists>n. made' = made @ reflush n \<and> sint newestTs \<le> sint (ckptGet made') \<and>
         (\<forall>m<n. sint (ckptGet (made @ reflush m)) < sint newestTs)"
proof (rule barrier_wait.raw_induct [where P = "\<lambda>g t c y.
    \<exists>n. y = c @ reflush n \<and> sint t \<le> sint (g y) \<and> (\<forall>m<n. sint (g (c @ reflush m)) < sint t)"])
  show "barrier_wait ckptGet newestTs made = Some made'" by fact
next
  fix bw :: "(event list \<Rightarrow> MongoTimestamp) \<Rightarrow> MongoTimestamp \<Rightarrow> event list \<Rightarrow> event list option"
  fix g t c y
  assume IH: "\<And>t c b y. bw t c b = Some y \<Longrightarrow>
      \<exists>n. y = b @ reflush n \<and> sint c \<le> sint (t y) \<and> (\<forall>m<n. sint (t (b @ reflush m)) < sint c)"
  assume eq: "(if sint t \<le> sint (g c) then Some c
      else bw g t (c @ [YieldInMs DDLCheckpointInterval, Checkpoint True 0])) = Some y"
  show "\<exists>n. y = c @ reflush n \<and> sint t \<le> sint (g y) \<and> (\<forall>m<n. sint (g (c @ reflush m)) < sint t)"
  proof (cases "sint t \<le> sint (g c)")
    case True
    with eq have "y = c" by simp
    with True show ?thesis by (intro exI [of _ 0]) simp
  next
    case False
    with eq have "bw g t (c @ [YieldInMs DDLCheckpointInterval, Checkpoint True 0]) = Some y"
      by simp
    from IH [OF this] obtain n where
      n: "y = (c @ [YieldInMs DDLCheckpointInterval, Checkpoint True 0]) @ reflush n"
        "sint t \<le> sint (g y)"
        "\<forall>m<n. sint (g ((c @ [YieldInMs DDLCheckpointInterval, Checkpoint True 0]) @ reflush m)) < sint t"
      by blast
    have "\<forall>m<Suc n. sint (g (c @ reflush m)) < sint t"
    proof (intro allI impI)
      fix m assume "m < Suc n"
      show "sint (g (c @ reflush m)) < sint t"
      proof (cases m)
        case 0
        with False show ?thesis by simp
      next
        case (Suc k)
        with \<open>m < Suc n\<close> n(3) show ?thesis by (simp add: DDLCheckpointInterval_def)
      qed
    qed
    with n(1,2) show ?thesis
      by (intro exI [of _ "Suc n"]) (simp add: DDLCheckpointInterval_def)
  qed
qed

lemma barrier_wait_complete:
  "sint newestTs \<le> sint (ckptGet (made @ reflush n)) \<Longrightarrow>
   (\<forall>m<n. sint (ckptGet (made @ reflush m)) < sint newestTs) \<Longrightarrow>
   barrier_wait ckptGet newestTs made = Some (made @ reflush n)"
proof (induction n arbitrary: made)
  case 0
  then show ?case by (subst barrier_wait.simps) simp
next
  case (Suc n)
  from Suc.prems(2) have first: "\<not> sint newestTs \<le> sint (ckptGet made)"
    by (auto dest: spec [of _ 0])
  have later: "\<forall>m<n. sint (ckptGet ((made @ [YieldInMs 300, Checkpoint True 0]) @ reflush m)) < sint newestTs"
  proof (intro allI impI)
    fix m assume "m < n"
    then have "Suc m < Suc n" by simp
    with Suc.prems(2) have "sint (ckptGet (made @ reflush (Suc m))) < sint newestTs" by blast
    then show "sint (ckptGet ((made @ [YieldInMs 300, Checkpoint True 0]) @ reflush m)) < sint newestTs"
      by simp
  qed
  from Suc.prems(1) have "sint newestTs \<le> sint (ckptGet ((made @ [YieldInMs 300, Checkpoint True 0]) @ reflush n))"
    by simp
  from Suc.IH [OF this later] first show ?case
    by (subst barrier_wait.simps) (simp add: DDLCheckpointInterval_def)
qed

text \<open>
  C2, as amended. For a batch whose barrier flag is true and whose newest timestamp is
  positive, and with more than one worker configured, \<^verbatim>\<open>checkCheckpointUpdate\<close> returns
  exactly after the first of its checks that finds the checkpoint manager's in-memory
  timestamp at or above \<^verbatim>\<open>newestTs\<close>: before each further check it sleeps
  \<^verbatim>\<open>DDLCheckpointInterval\<close> = 300 ms and re-flushes with \<^verbatim>\<open>checkpoint(true, 0)\<close>, and it
  never returns when no check succeeds. With one worker (\<^verbatim>\<open>WorkerNum <= 1\<close>), like
  without a barrier or with \<^verbatim>\<open>newestTs <= 0\<close>, it returns at once without a check.
\<close>

theorem checkCheckpointUpdate_waits:
  "checkCheckpointUpdate conf ckptGet isBarrier newestTs made = Some made' \<longleftrightarrow>
     (if isBarrier \<and> 0 < sint newestTs \<and> 1 < WorkerNum conf
      then \<exists>n. made' = made @ reflush n \<and> sint newestTs \<le> sint (ckptGet made') \<and>
             (\<forall>m<n. sint (ckptGet (made @ reflush m)) < sint newestTs)
      else made' = made)"
  using barrier_wait_sound [of ckptGet newestTs made made']
    barrier_wait_complete [of newestTs ckptGet made]
  by (auto simp: checkCheckpointUpdate_def)

theorem checkCheckpointUpdate_waits_witness:
  "checkCheckpointUpdate conf_two_workers ckpt_after_two_rounds True 5 []
     = Some [YieldInMs 300, Checkpoint True 0, YieldInMs 300, Checkpoint True 0]"
proof -
  have "\<exists>n. [YieldInMs 300, Checkpoint True 0, YieldInMs 300, Checkpoint True 0] = [] @ reflush n \<and>
      sint (5 :: 64 word) \<le> sint (ckpt_after_two_rounds
        [YieldInMs 300, Checkpoint True 0, YieldInMs 300, Checkpoint True 0]) \<and>
      (\<forall>m<n. sint (ckpt_after_two_rounds ([] @ reflush m)) < sint (5 :: 64 word))"
    by (intro exI [of _ 2])
      (auto simp: ckpt_after_two_rounds_def less_Suc_eq eval_nat_numeral)
  then show ?thesis
    using checkCheckpointUpdate_waits [of conf_two_workers ckpt_after_two_rounds True 5 "[]"
        "[YieldInMs 300, Checkpoint True 0, YieldInMs 300, Checkpoint True 0]"]
    by (simp add: conf_two_workers_def)
qed

text \<open>
  C2 as stated fails with one worker: after a barrier with newest timestamp 5 and the
  checkpoint at 0, \<^verbatim>\<open>checkCheckpointUpdate\<close> returns without waiting.
\<close>

theorem single_worker_skips_barrier_wait_counterexample:
  "checkCheckpointUpdate conf_small ckpt_stuck True 5 [] = Some [] \<and>
   sint (ckpt_stuck []) < sint (5 :: 64 word) \<and> 0 < sint (5 :: 64 word)"
  by (simp add: checkCheckpointUpdate_def conf_small_def ckpt_stuck_def)

lemma sint_ExtractMongoTimestamp:
  "sint (ExtractMongoTimestamp ts) = sint ts div 2 ^ 32"
  by (simp add: ExtractMongoTimestamp_def sint_signed_drop_bit_eq drop_bit_eq_div)

lemma sint_ExtractMongoTimestamp_bounds:
  "- (2 ^ 31) \<le> sint (ExtractMongoTimestamp ts)" "sint (ExtractMongoTimestamp ts) < 2 ^ 31"
proof -
  have "- (2 ^ 63) \<le> sint ts" "sint ts < 2 ^ 63"
    using sint_ge [of ts] sint_lt [of ts] by simp_all
  then show "- (2 ^ 31) \<le> sint (ExtractMongoTimestamp ts)" "sint (ExtractMongoTimestamp ts) < 2 ^ 31"
    unfolding sint_ExtractMongoTimestamp by simp_all
qed

lemma sint_minus_gap:
  "sint (ExtractMongoTimestamp ts - FilterCheckpointGap) = sint (ExtractMongoTimestamp ts) - 180"
proof -
  have "sint (ExtractMongoTimestamp ts - 180) =
      signed_take_bit 63 (sint (ExtractMongoTimestamp ts) - sint (180 :: 64 word))"
    by (simp add: sint_word_ariths)
  also have "sint (180 :: 64 word) = 180" by simp
  also have "signed_take_bit 63 (sint (ExtractMongoTimestamp ts) - 180)
      = sint (ExtractMongoTimestamp ts) - 180"
    using sint_ExtractMongoTimestamp_bounds [of ts]
    by (intro signed_take_bit_int_eq_self) simp_all
  finally show ?thesis by (simp add: FilterCheckpointGap_def)
qed

text \<open>
  C4, as amended. In a turn of the batcher loop that found no dispatchable entries while
  a filtered entry has been observed, the checkpoint is pushed forward to the filtered
  entry's timestamp (\<^verbatim>\<open>checkpoint(false, filterLog.Timestamp)\<close>, after
  \<^verbatim>\<open>UpdateQueryTimestamp\<close>) exactly when (a) \<^verbatim>\<open>filterFlag\<close> is set and the clock reads
  strictly more than \<^verbatim>\<open>FilterCheckpointCheckInterval\<close> = 180 s after \<^verbatim>\<open>filterCheckTs\<close>,
  (b) the filtered timestamp in seconds exceeds the stored checkpoint timestamp in seconds
  by more than \<^verbatim>\<open>FilterCheckpointGap\<close> = 180, and (c) there is no last accepted entry, or
  the filtered timestamp is strictly greater than the last accepted entry's and the barrier
  wait for that entry returns. With (a) and (b) and a filtered timestamp at or below the
  last accepted entry's, the turn crashes instead. In every other case the turn makes no
  call at all: it only starts the timer (sets \<^verbatim>\<open>filterFlag\<close> and \<^verbatim>\<open>filterCheckTs\<close>) when
  \<^verbatim>\<open>filterFlag\<close> was not set. The lemma after the examples says what the timer
  measures: \<^verbatim>\<open>filterCheckTs\<close> is the time of a turn since which every turn found nothing to
  dispatch.
\<close>

theorem filtered_turn_pushes_checkpoint:
  assumes "lastOplog b = None \<or> allEmpty b" and "lastFilterOplog b = Some filterTs"
  shows "startBatcher_turn conf ckptGet b st =
     (if filterFlag st \<and> filterCheckTs st + 180 * Second < now b \<and>
         sint (ExtractMongoTimestamp (ckptGet (calls st))) + 180
           < sint (ExtractMongoTimestamp filterTs)
      then
        (case lastOplog b of
           None \<Rightarrow>
             Some (Inr (st\<lparr>filterFlag := False,
               calls := calls st @ [UpdateQueryTimestamp filterTs, Checkpoint False filterTs]\<rparr>))
         | Some logTs \<Rightarrow>
             if sint filterTs \<le> sint logTs
             then Some (Inl (Crashf ''filter newestTs smaller than previous timestamp''))
             else
               (case checkCheckpointUpdate conf ckptGet True logTs (calls st) of
                  None \<Rightarrow> None
                | Some waited \<Rightarrow>
                    Some (Inr (st\<lparr>filterFlag := False,
                      calls := waited @
                        [UpdateQueryTimestamp filterTs, Checkpoint False filterTs]\<rparr>))))
      else Some (Inr (if filterFlag st then st
                      else st\<lparr>filterFlag := True, filterCheckTs := now b\<rparr>)))"
proof -
  have turn: "startBatcher_turn conf ckptGet b st = filtered_branch conf ckptGet b st"
    using assms(1) by (auto simp: startBatcher_turn_def split: option.split)
  show ?thesis
    unfolding turn filtered_branch_def Let_def sint_minus_gap assms(2)
    by (simp add: FilterCheckpointCheckInterval_def split: option.split)
qed

theorem filtered_turn_pushes_checkpoint_witness:
  "startBatcher_turn conf_small ckpt_10000 quiet_filtered_only waiting_200s
     = Some (Inr (waiting_200s\<lparr>filterFlag := False,
         calls := [UpdateQueryTimestamp (seconds 10200 + 5),
                   Checkpoint False (seconds 10200 + 5)]\<rparr>))"
  using filtered_turn_pushes_checkpoint [of quiet_filtered_only "seconds 10200 + 5" conf_small
      ckpt_10000 waiting_200s]
  by (simp add: quiet_filtered_only_def waiting_200s_def ckpt_10000_def seconds_def Second_def
      ExtractMongoTimestamp_def)

text \<open>
  C4 as stated fails: the timer has run for 200 s, the filtered entry (10200 s) is more
  than 180 s ahead of the checkpoint (10000 s), and the last accepted entry (10250 s) is
  not older than the filtered one. The turn crashes and makes no checkpoint call.
\<close>

theorem filtered_turn_crashes_counterexample:
  "startBatcher_turn conf_small ckpt_10000 quiet_after_accepted waiting_200s
     = Some (Inl (Crashf ''filter newestTs smaller than previous timestamp'')) \<and>
   allEmpty quiet_after_accepted \<and>
   filterFlag waiting_200s \<and>
   filterCheckTs waiting_200s + 180 * Second \<le> now quiet_after_accepted \<and>
   sint (ExtractMongoTimestamp (ckpt_10000 (calls waiting_200s))) + 180
     < sint (ExtractMongoTimestamp (seconds 10200 + 5))"
  by (simp add: startBatcher_turn_def filtered_branch_def quiet_after_accepted_def
      waiting_200s_def ckpt_10000_def seconds_def Second_def ExtractMongoTimestamp_def
      FilterCheckpointCheckInterval_def FilterCheckpointGap_def)


lemma startBatcher_loop_snoc:
  "startBatcher_loop conf ckptGet (batches @ [b]) st =
     (case startBatcher_loop conf ckptGet batches st of
        None \<Rightarrow> None
      | Some (Inl p) \<Rightarrow> Some (Inl p)
      | Some (Inr st') \<Rightarrow> startBatcher_turn conf ckptGet b st')"
  by (induction batches arbitrary: st) (auto split: option.splits sum.splits)

lemma startBatcher_turn_flag:
  assumes "startBatcher_turn conf ckptGet b st = Some (Inr st')" and "filterFlag st'"
  shows "filtered_only b \<and>
     (if filterFlag st then filterCheckTs st' = filterCheckTs st
      else filterCheckTs st' = now b \<and> lastFilterOplog b \<noteq> None)"
  using assms
  by (auto simp: startBatcher_turn_def dispatch_branch_def filtered_branch_def filtered_only_def
      Let_def split: option.splits if_splits)

lemma filter_timer_runs_over_filtered_turns:
  assumes "startBatcher_loop conf ckptGet batches st0 = Some (Inr st')"
    and "\<not> filterFlag st0" and "filterFlag st'"
  shows "\<exists>before b after. batches = before @ b # after \<and> filterCheckTs st' = now b \<and>
           lastFilterOplog b \<noteq> None \<and> list_all filtered_only (b # after)"
  using assms(1,3)
proof (induction batches arbitrary: st' rule: rev_induct)
  case Nil
  with assms(2) show ?case by simp
next
  case (snoc b batches)
  from snoc.prems(1) obtain st where
    loop: "startBatcher_loop conf ckptGet batches st0 = Some (Inr st)"
    and turn: "startBatcher_turn conf ckptGet b st = Some (Inr st')"
    by (auto simp: startBatcher_loop_snoc split: option.splits sum.splits)
  from startBatcher_turn_flag [OF turn snoc.prems(2)]
  have fo: "filtered_only b"
    and ts: "if filterFlag st then filterCheckTs st' = filterCheckTs st
             else filterCheckTs st' = now b \<and> lastFilterOplog b \<noteq> None"
    by simp_all
  show ?case
  proof (cases "filterFlag st")
    case True
    from snoc.IH [OF loop True] obtain before c after where
      "batches = before @ c # after" "filterCheckTs st = now c" "lastFilterOplog c \<noteq> None"
      "list_all filtered_only (c # after)"
      by blast
    with True ts fo show ?thesis
      by (intro exI [of _ before] exI [of _ c] exI [of _ "after @ [b]"]) simp
  next
    case False
    with ts fo show ?thesis
      by (intro exI [of _ batches] exI [of _ b] exI [of _ "[]"]) simp
  qed
qed

section \<open>Properties of the document syncer\<close>

lemma syncer_loop_result:
  "syncer_loop nsTrans collectionSync namespaces (finished, syncError) =
     (finished @ namespaces,
      case last_failure nsTrans collectionSync namespaces of
        Some later \<Rightarrow> Some later
      | None \<Rightarrow> syncError)"
  by (induction namespaces arbitrary: finished syncError) (auto split: option.splits)

lemma last_failure_None:
  "last_failure nsTrans collectionSync namespaces = None \<longleftrightarrow>
     (\<forall>n \<in> set namespaces. collectionSync n = None)"
  by (induction namespaces) (auto split: option.splits)

lemma last_failure_Some:
  "last_failure nsTrans collectionSync namespaces = Some e \<Longrightarrow>
     \<exists>before n after err. namespaces = before @ n # after \<and> collectionSync n = Some err \<and>
       e = DocumentSyncerSyncNsFailed n (nsTrans n) err \<and>
       (\<forall>m \<in> set after. collectionSync m = None)"
proof (induction namespaces)
  case Nil
  then show ?case by simp
next
  case (Cons a namespaces)
  show ?case
  proof (cases "last_failure nsTrans collectionSync namespaces")
    case None
    with Cons.prems obtain err where "collectionSync a = Some err"
      "e = DocumentSyncerSyncNsFailed a (nsTrans a) err"
      by (auto split: option.splits)
    with None show ?thesis
      by (intro exI [of _ "[]"] exI [of _ a] exI [of _ namespaces] exI [of _ err])
        (simp add: last_failure_None)
  next
    case (Some later)
    with Cons.prems have "later = e" by simp
    with Some Cons.IH obtain before n after err where
      "namespaces = before @ n # after" "collectionSync n = Some err"
      "e = DocumentSyncerSyncNsFailed n (nsTrans n) err" "\<forall>m \<in> set after. collectionSync m = None"
      by blast
    then show ?thesis
      by (intro exI [of _ "a # before"] exI [of _ n] exI [of _ after] exI [of _ err]) simp
  qed
qed

text \<open>
  C7, as amended. With at least one collection executor, \<^verbatim>\<open>DBSyncer.Start\<close> returns
  after every namespace of the list has been processed, whichever of them fail, and the
  value it returns is the error of the namespace that failed last, in the order in which
  the \<^verbatim>\<open>collectionSync\<close> calls finish (no later namespace failed); it is nil exactly
  when no namespace fails.
\<close>

theorem DBSyncer_Start_reports_last_failure:
  assumes "0 < collExecutorParallel" and "mset (order nsList) = mset nsList"
  shows "\<exists>finished syncError.
     DBSyncer_Start collExecutorParallel order nsTrans collectionSync (Inr nsList)
       = Returned (finished, syncError) \<and>
     mset finished = mset nsList \<and> finished = order nsList \<and>
     (case syncError of
        None \<Rightarrow> \<forall>n \<in> set nsList. collectionSync n = None
      | Some e \<Rightarrow>
          \<exists>before n after err. finished = before @ n # after \<and> collectionSync n = Some err \<and>
            e = DocumentSyncerSyncNsFailed n (nsTrans n) err \<and>
            (\<forall>m \<in> set after. collectionSync m = None))"
proof -
  let ?e = "last_failure nsTrans collectionSync (order nsList)"
  have start: "DBSyncer_Start collExecutorParallel order nsTrans collectionSync (Inr nsList)
      = Returned (order nsList, ?e)"
    using assms(1) by (simp add: DBSyncer_Start_def syncer_loop_result split: option.split)
  have same: "set (order nsList) = set nsList"
    using assms(2) by (rule mset_eq_setD)
  have "case ?e of
        None \<Rightarrow> \<forall>n \<in> set nsList. collectionSync n = None
      | Some e \<Rightarrow>
          \<exists>before n after err. order nsList = before @ n # after \<and> collectionSync n = Some err \<and>
            e = DocumentSyncerSyncNsFailed n (nsTrans n) err \<and>
            (\<forall>m \<in> set after. collectionSync m = None)"
  proof (cases ?e)
    case None
    then have "\<forall>n \<in> set nsList. collectionSync n = None"
      using same by (simp add: last_failure_None)
    with None show ?thesis by simp
  next
    case (Some e)
    from last_failure_Some [OF this] Some show ?thesis by simp
  qed
  with start assms(2) show ?thesis by blast
qed

theorem DBSyncer_Start_reports_last_failure_witness:
  "DBSyncer_Start 2 same_order same_ns all_fail (Inr [ns_a, ns_b])
     = Returned ([ns_a, ns_b], Some (DocumentSyncerSyncNsFailed ns_b ns_b (External ''b'')))"
  using DBSyncer_Start_reports_last_failure [of 2 same_order "[ns_a, ns_b]" same_ns all_fail]
  by (simp add: DBSyncer_Start_def same_order_def same_ns_def all_fail_def ns_a_def ns_b_def)

text \<open>
  C7 as stated fails: with one collection executor and two namespaces that both fail,
  \<^verbatim>\<open>Start\<close> returns the error of the second namespace, not of the first.
\<close>

theorem DBSyncer_Start_first_error_counterexample:
  "DBSyncer_Start 1 same_order same_ns all_fail (Inr [ns_a, ns_b])
     = Returned ([ns_a, ns_b], Some (DocumentSyncerSyncNsFailed ns_b ns_b (External ''b''))) \<and>
   first_failure same_ns all_fail [ns_a, ns_b]
     = Some (DocumentSyncerSyncNsFailed ns_a ns_a (External ''a'')) \<and>
   ns_a \<noteq> ns_b"
  by (simp add: DBSyncer_Start_def same_order_def same_ns_def all_fail_def ns_a_def ns_b_def)

lemma CollectionExecutor_Start_inv:
  "CollectionExecutor_Start connect parallel toNS = Inr (Inr c) \<Longrightarrow> executor_inv c"
  by (auto simp: CollectionExecutor_Start_def executor_inv_def split: option.splits if_splits)

lemma CollectionExecutor_Sync_inv:
  assumes "executor_inv c" and "CollectionExecutor_Sync docs c = Returned c'"
  shows "executor_inv c' \<and> length (executors c') = length (executors c)"
  using assms
  by (auto simp: CollectionExecutor_Sync_def executor_inv_def Let_def split: if_splits)

lemma doSync_keeps:
  "doSync destInsert docs c = (e, c') \<Longrightarrow>
     wg c' = wg c \<and> docBatch c' = docBatch c \<and> executors c' = executors c \<and> ns c' = ns c"
  by (auto simp: doSync_def split: if_splits option.splits)

lemma DocExecutor_turn_inv:
  assumes inv: "executor_inv c" and i: "i < length (executors c)"
  shows "\<exists>c'. DocExecutor_turn destInsert i c = Inr c' \<and> executor_inv c' \<and>
           length (executors c') = length (executors c) \<and>
           length (docBatch c') = length (docBatch c) - 1"
proof (cases "docBatch c")
  case Nil
  with inv i show ?thesis by (simp add: DocExecutor_turn_def)
next
  case (Cons docs waiting)
  obtain e c2 where ds: "doSync destInsert docs (c\<lparr>docBatch := waiting\<rparr>) = (e, c2)"
    by (cases "doSync destInsert docs (c\<lparr>docBatch := waiting\<rparr>)")
  from doSync_keeps [OF ds] have keeps: "wg c2 = wg c" "docBatch c2 = waiting"
    "executors c2 = executors c"
    by simp_all
  from inv Cons have wg: "wg c = int (length waiting) + 1"
    by (simp add: executor_inv_def)
  show ?thesis
    using Cons i inv ds keeps wg
    by (cases e; cases "executors c ! i")
      (auto simp: DocExecutor_turn_def Let_def executor_inv_def)
qed

lemma executor_run_inv:
  assumes "executor_inv c" and "executor_run destInsert acts c = Returned c'"
  shows "executor_inv c' \<and> length (executors c') = length (executors c)"
  using assms
proof (induction acts arbitrary: c)
  case Nil
  then show ?case by simp
next
  case (Cons a acts)
  show ?case
  proof (cases a)
    case (SyncCall docs)
    with Cons.prems(2) obtain c1 where c1: "CollectionExecutor_Sync docs c = Returned c1"
      and rest: "executor_run destInsert acts c1 = Returned c'"
      by (auto split: outcome.splits)
    from CollectionExecutor_Sync_inv [OF Cons.prems(1) c1] Cons.IH [OF _ rest]
    show ?thesis by simp
  next
    case (ExecutorTurn i)
    with Cons.prems(2) obtain c1 where c1: "DocExecutor_turn destInsert i c = Inr c1"
      and rest: "executor_run destInsert acts c1 = Returned c'"
      by (auto split: sum.splits)
    from c1 have i: "i < length (executors c)"
      by (auto simp: DocExecutor_turn_def split: if_splits)
    from DocExecutor_turn_inv [OF Cons.prems(1) i, of destInsert] c1
    have "executor_inv c1 \<and> length (executors c1) = length (executors c)" by auto
    with Cons.IH [OF _ rest] show ?thesis by simp
  qed
qed

lemma wg_Wait_returns:
  assumes "executor_inv c" and "list_all (\<lambda>i. i < length (executors c)) schedule"
    and "length (docBatch c) \<le> length schedule"
  shows "\<exists>c'. wg_Wait destInsert schedule c = Returned c' \<and> wg c' = 0 \<and> docBatch c' = [] \<and>
           length (executors c') = length (executors c)"
  using assms
proof (induction schedule arbitrary: c)
  case Nil
  then show ?case by (simp add: executor_inv_def)
next
  case (Cons i schedule)
  show ?case
  proof (cases "wg c = 0")
    case True
    with Cons.prems(1) show ?thesis by (simp add: executor_inv_def)
  next
    case False
    from Cons.prems(2) have i: "i < length (executors c)" by simp
    from DocExecutor_turn_inv [OF Cons.prems(1) i, of destInsert] obtain c1 where
      c1: "DocExecutor_turn destInsert i c = Inr c1" "executor_inv c1"
        "length (executors c1) = length (executors c)"
        "length (docBatch c1) = length (docBatch c) - 1"
      by blast
    from c1(3,4) Cons.prems(2,3)
    have "list_all (\<lambda>i. i < length (executors c1)) schedule"
      "length (docBatch c1) \<le> length schedule"
      by simp_all
    from Cons.IH [OF c1(2) this] c1(1,3) False show ?thesis by simp
  qed
qed

lemma first_error_None:
  "first_error toNS execs = None \<longleftrightarrow> (\<forall>e \<in> set execs. e = None)"
  by (induction toNS execs rule: first_error.induct) auto

lemma first_error_Some:
  "first_error toNS execs = Some e \<Longrightarrow>
     \<exists>i err. i < length execs \<and> execs ! i = Some err \<and> (\<forall>j<i. execs ! j = None) \<and>
       e = SyncNsFailed toNS err"
proof (induction toNS execs rule: first_error.induct)
  case (1 toNS)
  then show ?case by simp
next
  case (2 toNS err execs)
  then show ?case by (intro exI [of _ 0] exI [of _ err]) simp
next
  case (3 toNS execs)
  then obtain i err where "i < length execs" "execs ! i = Some err" "\<forall>j<i. execs ! j = None"
    "e = SyncNsFailed toNS err"
    by auto
  then show ?case
    by (intro exI [of _ "Suc i"] exI [of _ err]) (auto simp: less_Suc_eq_0_disj)
qed

lemma DocExecutor_turn_keeps_error:
  assumes "executors c ! j = Some err" and "j < length (executors c)"
    and "DocExecutor_turn destInsert k c = Inr c2"
  shows "executors c2 ! j = Some err"
proof (cases "docBatch c")
  case Nil
  with assms show ?thesis by (auto simp: DocExecutor_turn_def split: if_splits)
next
  case (Cons docs waiting)
  obtain e c3 where ds: "doSync destInsert docs (c\<lparr>docBatch := waiting\<rparr>) = (e, c3)"
    by (cases "doSync destInsert docs (c\<lparr>docBatch := waiting\<rparr>)")
  from doSync_keeps [OF ds] have keeps: "executors c3 = executors c" by simp
  show ?thesis
    using assms Cons ds keeps
    by (cases e; cases "k = j")
      (auto simp: DocExecutor_turn_def Let_def split: if_splits)
qed

text \<open>
  C10. A \<^verbatim>\<open>Sync\<close> call with an empty batch changes nothing. A turn of an executor that
  has recorded an error takes the oldest batch off the channel and decrements the wait
  counter without handing the batch to the destination; a recorded error stays recorded
  through any turn of any executor. After \<^verbatim>\<open>Start\<close> and any calls of \<^verbatim>\<open>Sync\<close> and turns
  of executors that have returned, \<^verbatim>\<open>Wait\<close> returns as soon as the executors have taken as
  many turns as batches are waiting, with the counter at 0 and the channel empty, and it
  reports the error of the failed executor with the lowest index (nil when no executor
  failed).
\<close>

theorem failed_executor_drains_and_Wait_returns:
  "CollectionExecutor_Sync [] c = Returned c
   \<and> (i < length (executors c) \<and> executors c ! i = Some err \<and> docBatch c = docs # waiting \<and>
        0 < wg c
      \<longrightarrow> DocExecutor_turn destInsert i c = Inr (c\<lparr>docBatch := waiting, wg := wg c - 1\<rparr>))
   \<and> (executors c ! j = Some err \<and> j < length (executors c) \<and>
        DocExecutor_turn destInsert k c = Inr c_next
      \<longrightarrow> executors c_next ! j = Some err)
   \<and> (CollectionExecutor_Start connect parallel toNS = Inr (Inr c_start) \<and>
        executor_run destInsert acts c_start = Returned c_wait \<and>
        list_all (\<lambda>i. i < length (executors c_wait)) schedule \<and>
        length (docBatch c_wait) \<le> length schedule
      \<longrightarrow> (\<exists>c'. CollectionExecutor_Wait destInsert schedule c_wait
                  = Returned (first_error (ns c') (executors c'), c') \<and>
               wg c' = 0 \<and> docBatch c' = [] \<and>
               (case first_error (ns c') (executors c') of
                  None \<Rightarrow> \<forall>e \<in> set (executors c'). e = None
                | Some e \<Rightarrow>
                    \<exists>k failure. k < length (executors c') \<and> executors c' ! k = Some failure \<and>
                      (\<forall>j<k. executors c' ! j = None) \<and> e = SyncNsFailed (ns c') failure)))"
proof (intro conjI impI)
  show "CollectionExecutor_Sync [] c = Returned c"
    by (simp add: CollectionExecutor_Sync_def)
next
  assume "i < length (executors c) \<and> executors c ! i = Some err \<and> docBatch c = docs # waiting \<and>
        0 < wg c"
  then show "DocExecutor_turn destInsert i c = Inr (c\<lparr>docBatch := waiting, wg := wg c - 1\<rparr>)"
    by (simp add: DocExecutor_turn_def Let_def)
next
  assume "executors c ! j = Some err \<and> j < length (executors c) \<and>
        DocExecutor_turn destInsert k c = Inr c_next"
  then show "executors c_next ! j = Some err"
    using DocExecutor_turn_keeps_error by blast
next
  assume a: "CollectionExecutor_Start connect parallel toNS = Inr (Inr c_start) \<and>
        executor_run destInsert acts c_start = Returned c_wait \<and>
        list_all (\<lambda>i. i < length (executors c_wait)) schedule \<and>
        length (docBatch c_wait) \<le> length schedule"
  then have "executor_inv c_start" using CollectionExecutor_Start_inv by blast
  with a have "executor_inv c_wait" using executor_run_inv by blast
  from wg_Wait_returns [OF this, of schedule destInsert] a obtain c' where
    c': "wg_Wait destInsert schedule c_wait = Returned c'" "wg c' = 0" "docBatch c' = []"
    by blast
  have "case first_error (ns c') (executors c') of
                  None \<Rightarrow> \<forall>e \<in> set (executors c'). e = None
                | Some e \<Rightarrow>
                    \<exists>k failure. k < length (executors c') \<and> executors c' ! k = Some failure \<and>
                      (\<forall>j<k. executors c' ! j = None) \<and> e = SyncNsFailed (ns c') failure"
  proof (cases "first_error (ns c') (executors c')")
    case None
    then have "\<forall>e \<in> set (executors c'). e = None" by (simp add: first_error_None)
    with None show ?thesis by simp
  next
    case (Some e)
    from first_error_Some [OF this] Some show ?thesis by simp
  qed
  with c' show "\<exists>c'. CollectionExecutor_Wait destInsert schedule c_wait
                  = Returned (first_error (ns c') (executors c'), c') \<and>
               wg c' = 0 \<and> docBatch c' = [] \<and>
               (case first_error (ns c') (executors c') of
                  None \<Rightarrow> \<forall>e \<in> set (executors c'). e = None
                | Some e \<Rightarrow>
                    \<exists>k failure. k < length (executors c') \<and> executors c' ! k = Some failure \<and>
                      (\<forall>j<k. executors c' ! j = None) \<and> e = SyncNsFailed (ns c') failure)"
    by (intro exI [of _ c']) (simp add: CollectionExecutor_Wait_def)
qed


theorem failed_executor_drains_and_Wait_returns_witness:
  "CollectionExecutor_Start None 2 ns_a = Inr (Inr two_executors) \<and>
   executor_run insert_rejects_big sync_then_fail two_executors
     = Returned \<lparr>ns = ns_a,
         executors = [None, Some (InsertDocsFailed 2 ns_a (External ''too big''))],
         wg = 2, docBatch = [[[3]], [[4]]], inserts = [[[1], [2]]]\<rparr> \<and>
   CollectionExecutor_Wait insert_rejects_big [1, 0]
       \<lparr>ns = ns_a, executors = [None, Some (InsertDocsFailed 2 ns_a (External ''too big''))],
         wg = 2, docBatch = [[[3]], [[4]]], inserts = [[[1], [2]]]\<rparr>
     = Returned (Some (SyncNsFailed ns_a (InsertDocsFailed 2 ns_a (External ''too big''))),
         \<lparr>ns = ns_a, executors = [None, Some (InsertDocsFailed 2 ns_a (External ''too big''))],
           wg = 0, docBatch = [], inserts = [[[1], [2]], [[4]]]\<rparr>)"
proof -
  let ?mid = "\<lparr>ns = ns_a,
         executors = [None, Some (InsertDocsFailed 2 ns_a (External ''too big''))],
         wg = 2, docBatch = [[[3]], [[4]]], inserts = [[[1], [2]]]\<rparr>"
  have start: "CollectionExecutor_Start None 2 ns_a = Inr (Inr two_executors)"
    by (simp add: CollectionExecutor_Start_def two_executors_def eval_nat_numeral)
  have run: "executor_run insert_rejects_big sync_then_fail two_executors = Returned ?mid"
    by (simp add: CollectionExecutor_Sync_def DocExecutor_turn_def doSync_def
        sync_then_fail_def two_executors_def insert_rejects_big_def Let_def)
  have sched: "list_all (\<lambda>i. i < length (executors ?mid)) [1, 0]"
    "length (docBatch ?mid) \<le> length [1 :: nat, 0]"
    by simp_all
  from failed_executor_drains_and_Wait_returns [where c_start = two_executors
      and destInsert = insert_rejects_big and acts = sync_then_fail and schedule = "[1, 0]"
      and connect = None and parallel = 2 and toNS = ns_a and c_wait = ?mid,
      THEN conjunct2, THEN conjunct2, THEN conjunct2] start run sched
  obtain c' where
    "CollectionExecutor_Wait insert_rejects_big [1, 0] ?mid
       = Returned (first_error (ns c') (executors c'), c')" "wg c' = 0" "docBatch c' = []"
    by blast
  moreover have "wg_Wait insert_rejects_big [1, 0] ?mid
      = Returned \<lparr>ns = ns_a,
          executors = [None, Some (InsertDocsFailed 2 ns_a (External ''too big''))],
          wg = 0, docBatch = [], inserts = [[[1], [2]], [[4]]]\<rparr>"
    by (simp add: DocExecutor_turn_def doSync_def insert_rejects_big_def Let_def)
  ultimately have "CollectionExecutor_Wait insert_rejects_big [1, 0] ?mid
     = Returned (Some (SyncNsFailed ns_a (InsertDocsFailed 2 ns_a (External ''too big''))),
         \<lparr>ns = ns_a, executors = [None, Some (InsertDocsFailed 2 ns_a (External ''too big''))],
           wg = 0, docBatch = [], inserts = [[[1], [2]], [[4]]]\<rparr>)"
    by (simp add: CollectionExecutor_Wait_def)
  with start run show ?thesis by simp
qed

end
